theory Spec2Isabelle
  imports Main "HOL-Library.Word"
begin

section \<open>Messages, identifiers and errors\<close>

text \<open>
  A message identifier is Go's \<^verbatim>\<open>uint32\<close>. Strings are byte strings.
\<close>

type_synonym uid = "32 word"

text \<open>
  Modelled from the spec: the type \<^verbatim>\<open>imap.SeqSet\<close> of the mailbox library is not part
  of the repository. The spec describes a pending set as "message identifiers (unique,
  unordered)", so it is a set of identifiers: \<^verbatim>\<open>new(imap.SeqSet)\<close> is the empty set,
  \<^verbatim>\<open>AddNum\<close> is \<open>insert\<close>, \<^verbatim>\<open>AddSet\<close> is union, \<^verbatim>\<open>Empty\<close> compares with the empty set and
  \<^verbatim>\<open>Contains\<close> is membership.
\<close>

type_synonym SeqSet = "uid set"

text \<open>
  The fields of \<^verbatim>\<open>imap.Message\<close> that the rules read: the envelope's subject and the
  \<^verbatim>\<open>Address()\<close> strings of its From and To lists, the flags, and the fetched body
  sections (section specifier, literal; a nil literal is \<open>None\<close>).
\<close>

record Message =
  SeqNum :: "32 word"
  Uid :: uid
  Subject :: string
  From :: "string list"
  To :: "string list"
  Flags :: "string list"
  Body :: "(string \<times> string option) list"

text \<open>
  An error value keeps the format string of \<^verbatim>\<open>fmt.Errorf\<close> verbatim, its arguments, and
  the error wrapped by \<^verbatim>\<open>%w\<close> when there is one; \<open>Join\<close> is \<^verbatim>\<open>errors.Join\<close>. An argument is
  a string, a number or the text of an error. Errors raised by collaborators outside the
  repository are \<open>External\<close>. A call through a nil interface or pointer is a panic, and so
  is a slice expression out of range.
\<close>

datatype arg = S string | D int | V error
  and error = Errorf string "arg list" "error option" | Join "error list" | External string

datatype panic = NilDereference | SliceBounds

section \<open>Predicates (rules/rules.go)\<close>

text \<open>
  \<^verbatim>\<open>StringPredicate\<close> has two implementations: \<^verbatim>\<open>StringEqualsPredicate\<close> and the regular
  expression engine's \<^verbatim>\<open>*regexp.Regexp\<close>, kept here as its source pattern. The engine is
  outside the repository and is a parameter \<open>rx\<close>: \<open>rx pattern s\<close> says whether the compiled
  pattern matches \<open>s\<close>.
\<close>

datatype StringPredicate = StringEqualsPredicate string | Regexp string

datatype Predicate =
    FieldPredicate string StringPredicate
  | AndPredicate Predicate Predicate
  | OrPredicate Predicate Predicate
  | NotPredicate Predicate

type_synonym regexp_match = "string \<Rightarrow> string \<Rightarrow> bool"

fun MatchString :: "regexp_match \<Rightarrow> StringPredicate \<Rightarrow> string \<Rightarrow> bool" where
  "MatchString rx (StringEqualsPredicate p) s = (p = s)"
| "MatchString rx (Regexp p) s = rx p s"

definition NewFieldPredicate :: "string \<Rightarrow> StringPredicate \<Rightarrow> error + Predicate" where
  "NewFieldPredicate field predicate =
     (if field = ''to'' \<or> field = ''from'' \<or> field = ''subject''
      then Inr (FieldPredicate field predicate)
      else Inl (Errorf (''unknown field '' @ [CHR 0x27] @ ''%s'' @ [CHR 0x27]) [S field] None))"

fun MatchMessage :: "regexp_match \<Rightarrow> Predicate \<Rightarrow> Message \<Rightarrow> bool" where
  "MatchMessage rx (FieldPredicate field p) msg =
     (if field = ''to'' then list_ex (MatchString rx p) (To msg)
      else if field = ''from'' then list_ex (MatchString rx p) (From msg)
      else if field = ''subject'' then MatchString rx p (Subject msg)
      else False)"
| "MatchMessage rx (AndPredicate l r) msg = (MatchMessage rx l msg \<and> MatchMessage rx r msg)"
| "MatchMessage rx (OrPredicate l r) msg = (MatchMessage rx l msg \<or> MatchMessage rx r msg)"
| "MatchMessage rx (NotPredicate p) msg = (\<not> MatchMessage rx p msg)"

text \<open>
  A rule's \<^verbatim>\<open>Predicate\<close> field is an interface value: the rule constructors are called
  with nil by the grammar, which sets the field afterwards. Calling \<^verbatim>\<open>MatchMessage\<close> on
  the nil interface panics.
\<close>

definition Predicate_MatchMessage ::
  "regexp_match \<Rightarrow> Predicate option \<Rightarrow> Message \<Rightarrow> panic + bool" where
  "Predicate_MatchMessage rx p msg =
     (case p of None \<Rightarrow> Inl NilDereference | Some q \<Rightarrow> Inr (MatchMessage rx q msg))"

section \<open>The mailbox client\<close>

text \<open>
  The requests the rules send to the mailbox client. The client is outside the repository:
  it is a parameter that answers a mutation request with an error or with success, and a
  fetch request with the fetched messages and the status of the fetch.
\<close>

datatype FlagsOp = AddFlags | RemoveFlags

datatype request =
    UidMove SeqSet string
  | UidStore SeqSet FlagsOp bool "string list"
  | UidFetch SeqSet "string list"

record client =
  mutate :: "request \<Rightarrow> error option"
  fetch :: "request \<Rightarrow> Message list \<times> error option"

definition FlaggedFlag :: string where
  "FlaggedFlag = [CHR 0x5C] @ ''Flagged''"

section \<open>Move, Flag and Unflag rules (rules/rules.go)\<close>

record MoveRule =
  Predicate :: "Predicate option"
  Mailbox :: string
  messages :: SeqSet

definition NewMoveRule :: "Predicate option \<Rightarrow> string \<Rightarrow> MoveRule" where
  "NewMoveRule predicate mailbox =
     \<lparr>Predicate = predicate, Mailbox = mailbox, messages = {}\<rparr>"

definition MoveRule_Message :: "regexp_match \<Rightarrow> MoveRule \<Rightarrow> Message \<Rightarrow> panic + MoveRule" where
  "MoveRule_Message rx r msg =
     (case Predicate_MatchMessage rx (MoveRule.Predicate r) msg of
        Inl p \<Rightarrow> Inl p
      | Inr matched \<Rightarrow>
          Inr (if matched then r\<lparr>MoveRule.messages := insert (Uid msg) (MoveRule.messages r)\<rparr>
               else r))"


record FlagRule =
  Predicate :: "Predicate option"
  Flag :: string
  messages :: SeqSet

definition NewFlagRule :: "Predicate option \<Rightarrow> string \<Rightarrow> FlagRule" where
  "NewFlagRule predicate flag =
     \<lparr>Predicate = predicate, Flag = (if flag = [] then FlaggedFlag else flag), messages = {}\<rparr>"

definition FlagRule_Message :: "regexp_match \<Rightarrow> FlagRule \<Rightarrow> Message \<Rightarrow> panic + FlagRule" where
  "FlagRule_Message rx r msg =
     (if list_ex (\<lambda>flag. flag = FlagRule.Flag r) (Flags msg) then Inr r
      else (case Predicate_MatchMessage rx (FlagRule.Predicate r) msg of
              Inl p \<Rightarrow> Inl p
            | Inr matched \<Rightarrow>
                Inr (if matched then r\<lparr>FlagRule.messages := insert (Uid msg) (FlagRule.messages r)\<rparr>
                     else r)))"

definition FlagRule_Action :: "client \<Rightarrow> FlagRule \<Rightarrow> FlagRule \<times> error option \<times> request list" where
  "FlagRule_Action cl r =
     (let msgs = FlagRule.messages r;
          r' = r\<lparr>FlagRule.messages := {}\<rparr>
      in if msgs = {} then (r', None, [])
         else (let flags = [FlagRule.Flag r'] in
               case mutate cl (UidStore msgs AddFlags True flags) of
                 Some err \<Rightarrow>
                   (r', Some (Errorf ''flag messages with `%s`: %w'' [S (FlagRule.Flag r')] (Some err)),
                    [UidStore msgs AddFlags True flags])
               | None \<Rightarrow> (r', None, [UidStore msgs AddFlags True flags])))"

record UnflagRule =
  Predicate :: "Predicate option"
  Flag :: string
  messages :: SeqSet

definition NewUnflagRule :: "Predicate option \<Rightarrow> string \<Rightarrow> UnflagRule" where
  "NewUnflagRule predicate flag =
     \<lparr>Predicate = predicate, Flag = (if flag = [] then FlaggedFlag else flag), messages = {}\<rparr>"

definition UnflagRule_Message :: "regexp_match \<Rightarrow> UnflagRule \<Rightarrow> Message \<Rightarrow> panic + UnflagRule" where
  "UnflagRule_Message rx r msg =
     (if list_ex (\<lambda>flag. flag = UnflagRule.Flag r) (Flags msg) then Inr r
      else (case Predicate_MatchMessage rx (UnflagRule.Predicate r) msg of
              Inl p \<Rightarrow> Inl p
            | Inr matched \<Rightarrow>
                Inr (if matched
                     then r\<lparr>UnflagRule.messages := insert (Uid msg) (UnflagRule.messages r)\<rparr>
                     else r)))"

definition UnflagRule_Action ::
  "client \<Rightarrow> UnflagRule \<Rightarrow> UnflagRule \<times> error option \<times> request list" where
  "UnflagRule_Action cl r =
     (let msgs = UnflagRule.messages r;
          r' = r\<lparr>UnflagRule.messages := {}\<rparr>
      in if msgs = {} then (r', None, [])
         else (let flags = [UnflagRule.Flag r'] in
               case mutate cl (UidStore msgs RemoveFlags True flags) of
                 Some err \<Rightarrow>
                   (r', Some (Errorf ''unflag messages with `%s`: %w'' [S (UnflagRule.Flag r')] (Some err)),
                    [UidStore msgs RemoveFlags True flags])
               | None \<Rightarrow> (r', None, [UidStore msgs RemoveFlags True flags])))"


section \<open>Collaborators of stream delivery\<close>

text \<open>
  Stream delivery calls the standard library's mail, MIME, HTTP and process packages. None
  of them is part of the repository; each call is a parameter, collected in \<open>world\<close>.
  \<open>NextParts body boundary\<close> gives the parts that successive \<^verbatim>\<open>NextPart\<close> calls return
  before the first call that fails, and the error of that call. \<open>Date\<close> returns the zero
  time with its error, as \<^verbatim>\<open>Header.Date\<close> does. \<open>UnicodeToLower\<close> is what \<^verbatim>\<open>strings.ToLower\<close>
  does to a string with a byte outside ASCII.
\<close>

record mail_Message =
  mail_Header :: "string \<Rightarrow> string"
  mail_Body :: string

record Part =
  part_Header :: "string \<Rightarrow> string"
  part_Content :: string

datatype reader = PartReader Part | Base64Decoder Part | QuotedPrintableReader Part

datatype body = Raw "string option" | Decoded reader

record Request =
  req_Method :: string
  req_URL :: string
  req_Body :: body
  req_Header :: "(string \<times> string) list"

record Response =
  StatusCode :: int

record world =
  ParseMediaType :: "string \<Rightarrow> error + (string \<times> (string \<Rightarrow> string))"
  NextParts :: "string \<Rightarrow> string \<Rightarrow> Part list \<times> error"
  UnicodeToLower :: "string \<Rightarrow> string"
  ReadMessage :: "string \<Rightarrow> error + mail_Message"
  Date :: "(string \<Rightarrow> string) \<Rightarrow> int \<times> error option"
  Format :: "int \<Rightarrow> string \<Rightarrow> string"
  DecodeHeader :: "string \<Rightarrow> error + string"
  Run :: "string list \<Rightarrow> string list \<Rightarrow> reader \<Rightarrow> error option"
  NewRequestWithContext :: "string \<Rightarrow> string \<Rightarrow> error option"
  Do :: "Request \<Rightarrow> error + Response"

section \<open>Finding the HTML part (messageMIME, rules/rules.go)\<close>

definition HasPrefix :: "string \<Rightarrow> string \<Rightarrow> bool" where
  "HasPrefix s pre = (take (length pre) s = pre)"

text \<open>
  \<^verbatim>\<open>strings.ToLower\<close>: a string of ASCII bytes is lowered byte by byte; any other string
  goes through the Unicode case tables.
\<close>

definition lower_byte :: "char \<Rightarrow> char" where
  "lower_byte c =
     (let n = (of_char c :: nat) in if 65 \<le> n \<and> n \<le> 90 then char_of (n + 32) else c)"

definition ToLower :: "world \<Rightarrow> string \<Rightarrow> string" where
  "ToLower w s =
     (if list_all (\<lambda>c. (of_char c :: nat) < 128) s then map lower_byte s
      else UnicodeToLower w s)"

text \<open>The loop of \<^verbatim>\<open>messageMIME\<close> over the parts of the multipart reader.\<close>

fun messageMIME_parts :: "world \<Rightarrow> string \<Rightarrow> Part list \<Rightarrow> error \<Rightarrow> error + reader" where
  "messageMIME_parts w contentType [] err =
     Inl (Errorf ''could not find %s part of message: %w'' [S contentType] (Some err))"
| "messageMIME_parts w contentType (part # rest) err =
     (case ParseMediaType w (part_Header part ''Content-Type'') of
        Inl e \<Rightarrow> Inl (Errorf ''parse multipart message part content type: %w'' [] (Some e))
      | Inr (mediaType, params) \<Rightarrow>
          if mediaType = contentType
          then (let enc = ToLower w (part_Header part ''Content-Transfer-Encoding'')
                in if enc = ''base64'' then Inr (Base64Decoder part)
                   else if enc = ''quoted-printable'' then Inr (QuotedPrintableReader part)
                   else Inr (PartReader part))
          else messageMIME_parts w contentType rest err)"

definition messageMIME :: "world \<Rightarrow> mail_Message \<Rightarrow> string \<Rightarrow> error + reader" where
  "messageMIME w message contentType =
     (case ParseMediaType w (mail_Header message ''Content-Type'') of
        Inl e \<Rightarrow> Inl (Errorf ''parse message content type: %w'' [] (Some e))
      | Inr (mediaType, params) \<Rightarrow>
          if \<not> HasPrefix mediaType ''multipart/''
          then Inl (Errorf ''expected multipart message but found %s'' [S mediaType] None)
          else (case NextParts w (mail_Body message) (params ''boundary'') of
                  (parts, err) \<Rightarrow> messageMIME_parts w contentType parts err))"

section \<open>Stream rules that run a command (rules/rules.go)\<close>

record CmdStreamRule =
  Predicate :: "Predicate option"
  Command :: string
  messages :: SeqSet

definition NewCmdStreamRule :: "Predicate option \<Rightarrow> string \<Rightarrow> CmdStreamRule" where
  "NewCmdStreamRule predicate command =
     \<lparr>Predicate = predicate, Command = command, messages = {}\<rparr>"

definition CmdStreamRule_Message ::
  "regexp_match \<Rightarrow> CmdStreamRule \<Rightarrow> Message \<Rightarrow> panic + CmdStreamRule" where
  "CmdStreamRule_Message rx r msg =
     (case Predicate_MatchMessage rx (CmdStreamRule.Predicate r) msg of
        Inl p \<Rightarrow> Inl p
      | Inr matched \<Rightarrow>
          Inr (if matched
               then r\<lparr>CmdStreamRule.messages := insert (Uid msg) (CmdStreamRule.messages r)\<rparr>
               else r))"

definition RFC2822 :: string where
  "RFC2822 = ''Mon, 02 Jan 2006 15:04:05 MST''"

definition RFC3339 :: string where
  "RFC3339 = ''2006-01-02T15:04:05Z07:00''"





section \<open>Stream rules that post to a URL (the later revision of rules.go, kept in README.md)\<close>

text \<open>
  The later revision of \<^verbatim>\<open>StreamRule\<close> posts to a URL and remembers, in \<^verbatim>\<open>done\<close>, the
  identifiers it has handled. The field is called \<open>doneSet\<close> here.
\<close>

record StreamRule =
  Predicate :: "Predicate option"
  Content :: string
  URL :: string
  messages :: SeqSet
  doneSet :: SeqSet

definition StreamContentHTML :: string where
  "StreamContentHTML = ''html''"

definition StreamContentRFC822 :: string where
  "StreamContentRFC822 = ''rfc822''"

definition NewStreamRule :: "Predicate option \<Rightarrow> string \<Rightarrow> string \<Rightarrow> StreamRule" where
  "NewStreamRule predicate content url =
     \<lparr>Predicate = predicate, Content = content, URL = url, messages = {}, doneSet = {}\<rparr>"


text \<open>The last non-nil literal of the body map, in the order the map is walked.\<close>

fun last_literal :: "(string \<times> string option) list \<Rightarrow> string option" where
  "last_literal [] = None"
| "last_literal ((k, v) # rest) =
     (case last_literal rest of Some l \<Rightarrow> Some l | None \<Rightarrow> v)"

text \<open>The response-status guard, as both branches of \<^verbatim>\<open>handleMessage\<close> write it.\<close>

definition error_response :: "int \<Rightarrow> bool" where
  "error_response code = (code < 200 \<and> code \<ge> 300)"

text \<open>
  What both branches of \<^verbatim>\<open>handleMessage\<close> do with the request once it is built: send it,
  report a transport error, test the status.
\<close>

definition post :: "world \<Rightarrow> string \<Rightarrow> Request \<Rightarrow> error option" where
  "post w url req =
     (case Do w req of
        Inl e \<Rightarrow> Some (Errorf ''stream messages to `%s`: do http request: %w'' [S url] (Some e))
      | Inr resp \<Rightarrow>
          if error_response (StatusCode resp)
          then Some (Errorf ''stream messages to `%s`: error response: %d''
                       [S url, D (StatusCode resp)] None)
          else None)"

text \<open>
  \<^verbatim>\<open>handleMessage\<close> sets the headers of the request before it looks at the error of
  \<^verbatim>\<open>http.NewRequestWithContext\<close>; when that call fails the request is nil and setting a
  header panics. \<^verbatim>\<open>mail.ReadMessage\<close> on a nil reader panics as well.
\<close>

definition handleMessage :: "world \<Rightarrow> StreamRule \<Rightarrow> Message \<Rightarrow> panic + error option" where
  "handleMessage w r message =
     (let rfc822 = last_literal (Body message) in
      if Content r = StreamContentRFC822 then
        (case NewRequestWithContext w ''POST'' (URL r) of
           Some e \<Rightarrow> Inl NilDereference
         | None \<Rightarrow>
             Inr (post w (URL r)
                    \<lparr>req_Method = ''POST'', req_URL = URL r, req_Body = Raw rfc822,
                     req_Header = [(''Content-Type'', ''message/rfc822''),
                                   (''Accept'', ''application/json'')]\<rparr>))
      else if Content r = StreamContentHTML then
        (case rfc822 of
           None \<Rightarrow> Inl NilDereference
         | Some text \<Rightarrow>
            (case ReadMessage w text of
               Inl e \<Rightarrow> Inr (Some (Errorf ''parse message: %w'' [] (Some e)))
             | Inr msg \<Rightarrow>
                (case messageMIME w msg ''text/html'' of
                   Inl e \<Rightarrow> Inr (Some (Errorf ''html of message %d: %w''
                                          [D (uint (Uid message))] (Some e)))
                 | Inr html \<Rightarrow>
                    (case Date w (mail_Header msg) of
                       (date, Some e) \<Rightarrow>
                         Inr (Some (Errorf ''parse date of message %d: %w''
                                      [D (uint (Uid message))] (Some e)))
                     | (date, None) \<Rightarrow>
                        (case DecodeHeader w (mail_Header msg ''Subject'') of
                           Inl e \<Rightarrow> Inr (Some (Errorf ''decode subject of message %d: %w''
                                                  [D (uint (Uid message))] (Some e)))
                         | Inr subject \<Rightarrow>
                            (case NewRequestWithContext w ''POST'' (URL r) of
                               Some e \<Rightarrow> Inl NilDereference
                             | None \<Rightarrow>
                                 Inr (post w (URL r)
                                        \<lparr>req_Method = ''POST'', req_URL = URL r,
                                         req_Body = Decoded html,
                                         req_Header =
                                           [(''Content-Type'', ''message/rfc822''),
                                            (''Accept'', ''application/json''),
                                            (''X-Message-UUID'', mail_Header msg ''X-Apple-UUID''),
                                            (''X-Message-Subject'', subject),
                                            (''X-Message-Date-RFC3339'', Format w date RFC3339),
                                            (''X-Message-Date-RFC2822'', Format w date RFC2822)]\<rparr>)))))))
      else Inr None)"





fun request_ids :: "request \<Rightarrow> SeqSet" where
  "request_ids (UidMove ids mailbox) = ids"
| "request_ids (UidStore ids op silent flags) = ids"
| "request_ids (UidFetch ids items) = ids"

section \<open>Flag and Unflag rules skip a message that carries the flag\<close>

lemma list_ex_eq_iff: "list_ex (\<lambda>x. x = a) xs \<longleftrightarrow> a \<in> set xs"
  by (induction xs) auto

lemma FlagRule_Action_ids:
  "q \<in> set (snd (snd (FlagRule_Action cl r))) \<Longrightarrow> request_ids q = FlagRule.messages r"
  by (auto simp: FlagRule_Action_def Let_def split: if_splits option.splits)

lemma UnflagRule_Action_ids:
  "q \<in> set (snd (snd (UnflagRule_Action cl r))) \<Longrightarrow> request_ids q = UnflagRule.messages r"
  by (auto simp: UnflagRule_Action_def Let_def split: if_splits option.splits)

text \<open>
  C4. When the message's flag list contains the rule's flag, the match step of a Flag
  rule and of an Unflag rule returns the rule as it was (the pending set keeps its
  elements and the identifier is not added), whatever the predicate is or says. So the
  action step that follows sends no request that names the message, unless an earlier
  match step had already put its identifier in the pending set; for a rule fresh from
  its constructor the action step sends no request at all.
\<close>

theorem flagged_message_skipped:
  "(FlagRule.Flag r \<in> set (Flags msg) \<longrightarrow>
      FlagRule_Message rx r msg = Inr r \<and>
      (Uid msg \<notin> FlagRule.messages r \<longrightarrow>
         (\<forall>q \<in> set (snd (snd (FlagRule_Action cl r))). Uid msg \<notin> request_ids q))) \<and>
   (UnflagRule.Flag u \<in> set (Flags msg) \<longrightarrow>
      UnflagRule_Message rx u msg = Inr u \<and>
      (Uid msg \<notin> UnflagRule.messages u \<longrightarrow>
         (\<forall>q \<in> set (snd (snd (UnflagRule_Action cl u))). Uid msg \<notin> request_ids q))) \<and>
   (x \<noteq> [] \<and> x \<in> set (Flags msg) \<longrightarrow>
      FlagRule_Message rx (NewFlagRule p x) msg = Inr (NewFlagRule p x) \<and>
      snd (snd (FlagRule_Action cl (NewFlagRule p x))) = [])"
proof (intro conjI impI ballI)
  assume "FlagRule.Flag r \<in> set (Flags msg)"
  then show "FlagRule_Message rx r msg = Inr r"
    by (simp add: FlagRule_Message_def list_ex_eq_iff)
next
  fix q
  assume "Uid msg \<notin> FlagRule.messages r" "q \<in> set (snd (snd (FlagRule_Action cl r)))"
  then show "Uid msg \<notin> request_ids q"
    using FlagRule_Action_ids by blast
next
  assume "UnflagRule.Flag u \<in> set (Flags msg)"
  then show "UnflagRule_Message rx u msg = Inr u"
    by (simp add: UnflagRule_Message_def list_ex_eq_iff)
next
  fix q
  assume "Uid msg \<notin> UnflagRule.messages u" "q \<in> set (snd (snd (UnflagRule_Action cl u)))"
  then show "Uid msg \<notin> request_ids q"
    using UnflagRule_Action_ids by blast
next
  assume "x \<noteq> [] \<and> x \<in> set (Flags msg)"
  then show "FlagRule_Message rx (NewFlagRule p x) msg = Inr (NewFlagRule p x)"
    by (simp add: FlagRule_Message_def NewFlagRule_def list_ex_eq_iff)
next
  show "snd (snd (FlagRule_Action cl (NewFlagRule p x))) = []"
    by (simp add: FlagRule_Action_def NewFlagRule_def)
qed

definition promo_message :: Message where
  "promo_message =
     \<lparr>SeqNum = 1, Uid = 7, Subject = ''Deal!'', From = [''shop@example.com''],
      To = [''me@example.com''], Flags = [''Promo''], Body = []\<rparr>"

definition promo_predicate :: Predicate where
  "promo_predicate = FieldPredicate ''subject'' (StringEqualsPredicate ''Deal!'')"

definition quiet_client :: client where
  "quiet_client = \<lparr>mutate = (\<lambda>q. None), fetch = (\<lambda>q. ([], None))\<rparr>"

definition promo_rule :: FlagRule where
  "promo_rule =
     \<lparr>FlagRule.Predicate = Some promo_predicate, FlagRule.Flag = ''Promo'',
      FlagRule.messages = {3}\<rparr>"

definition unpromo_rule :: UnflagRule where
  "unpromo_rule =
     \<lparr>UnflagRule.Predicate = Some promo_predicate, UnflagRule.Flag = ''Promo'',
      UnflagRule.messages = {3}\<rparr>"

theorem flagged_message_skipped_witness:
  "MatchMessage (\<lambda>pat s. False) promo_predicate promo_message \<and>
   ''Promo'' \<in> set (Flags promo_message) \<and>
   Uid promo_message \<notin> FlagRule.messages promo_rule \<and>
   FlagRule_Message (\<lambda>pat s. False) promo_rule promo_message = Inr promo_rule \<and>
   UnflagRule_Message (\<lambda>pat s. False) unpromo_rule promo_message = Inr unpromo_rule \<and>
   snd (snd (FlagRule_Action quiet_client promo_rule)) = [UidStore {3} AddFlags True [''Promo'']] \<and>
   Uid promo_message \<notin> request_ids (UidStore {3} AddFlags True [''Promo'']) \<and>
   snd (snd (UnflagRule_Action quiet_client unpromo_rule))
     = [UidStore {3} RemoveFlags True [''Promo'']] \<and>
   FlagRule_Message (\<lambda>pat s. False) (NewFlagRule (Some promo_predicate) ''Promo'') promo_message
     = Inr (NewFlagRule (Some promo_predicate) ''Promo'') \<and>
   snd (snd (FlagRule_Action quiet_client (NewFlagRule (Some promo_predicate) ''Promo''))) = []"
  using flagged_message_skipped
    [of promo_rule promo_message "\<lambda>pat s. False" quiet_client unpromo_rule "''Promo''"
        "Some promo_predicate"]
  by (simp add: promo_message_def promo_predicate_def promo_rule_def unpromo_rule_def
      quiet_client_def FlagRule_Action_def UnflagRule_Action_def)


section \<open>A stream rule attempts each message at most once\<close>






text \<open>
  The witness: a message is matched, the action step fetches it and the sink refuses the
  connection; the message is matched again in the next scan and is not taken.
\<close>

definition deal_message :: Message where
  "deal_message =
     \<lparr>SeqNum = 1, Uid = 7, Subject = ''Deal!'', From = [''shop@example.com''],
      To = [''me@example.com''], Flags = [], Body = [(''BODY[]'', Some ''Subject: Deal!'')]\<rparr>"

definition refusing_world :: world where
  "refusing_world =
     \<lparr>ParseMediaType = (\<lambda>s. Inl (External ''mime: no media type'')),
      NextParts = (\<lambda>b s. ([], External ''EOF'')),
      UnicodeToLower = (\<lambda>s. s),
      ReadMessage = (\<lambda>s. Inl (External ''malformed header'')),
      Date = (\<lambda>h. (0, Some (External ''header not in message''))),
      Format = (\<lambda>t layout. []),
      DecodeHeader = (\<lambda>s. Inr s),
      Run = (\<lambda>cmd env input. None),
      NewRequestWithContext = (\<lambda>m url. None),
      Do = (\<lambda>req. Inl (External ''connection refused''))\<rparr>"


definition deal_rule :: StreamRule where
  "deal_rule = NewStreamRule (Some promo_predicate) StreamContentRFC822 ''http://sink/''"


definition deal_done :: StreamRule where
  "deal_done = deal_rule\<lparr>doneSet := {7}\<rparr>"



section \<open>The response-status guard of the URL stream rule\<close>

lemma post_never_error_response:
  "post w url req \<noteq> Some (Errorf ''stream messages to `%s`: error response: %d'' args cause)"
  by (auto simp: post_def error_response_def split: sum.splits)

text \<open>
  C9. The guard \<^verbatim>\<open>resp.StatusCode < 200 && resp.StatusCode >= 300\<close> is false for every
  status code. So whenever the sink answers a request with a response, whatever its
  status, posting reports success; \<^verbatim>\<open>handleMessage\<close> never returns the error-response
  error; and with the full-message content kind, when the request can be built and the
  sink answers every request, \<^verbatim>\<open>handleMessage\<close> returns success.
\<close>

theorem status_guard_never_fires:
  "\<not> error_response code \<and>
   (Do w req = Inr resp \<longrightarrow> post w url req = None) \<and>
   handleMessage w r message \<noteq>
     Inr (Some (Errorf ''stream messages to `%s`: error response: %d'' args cause)) \<and>
   (Content r = StreamContentRFC822 \<and> NewRequestWithContext w ''POST'' (URL r) = None \<and>
    (\<forall>q. \<exists>answer. Do w q = Inr answer) \<longrightarrow> handleMessage w r message = Inr None)"
proof (intro conjI impI)
  show "\<not> error_response code"
    by (simp add: error_response_def)
next
  assume "Do w req = Inr resp"
  then show "post w url req = None"
    by (simp add: post_def error_response_def)
next
  show "handleMessage w r message \<noteq>
     Inr (Some (Errorf ''stream messages to `%s`: error response: %d'' args cause))"
    by (auto simp: handleMessage_def Let_def post_never_error_response
             split: sum.splits option.splits prod.splits)
next
  assume a: "Content r = StreamContentRFC822 \<and> NewRequestWithContext w ''POST'' (URL r) = None \<and>
    (\<forall>q. \<exists>answer. Do w q = Inr answer)"
  have "post w (URL r) q = None" for q
  proof -
    from a obtain answer where "Do w q = Inr answer" by blast
    then show ?thesis by (simp add: post_def error_response_def)
  qed
  with a show "handleMessage w r message = Inr None"
    by (simp add: handleMessage_def Let_def)
qed

definition unavailable_world :: world where
  "unavailable_world = refusing_world\<lparr>Do := (\<lambda>req. Inr \<lparr>StatusCode = 503\<rparr>)\<rparr>"

definition deal_request :: Request where
  "deal_request =
     \<lparr>req_Method = ''POST'', req_URL = ''http://sink/'', req_Body = Raw (Some ''Subject: Deal!''),
      req_Header = [(''Content-Type'', ''message/rfc822''), (''Accept'', ''application/json'')]\<rparr>"

theorem status_guard_never_fires_witness:
  "Do unavailable_world deal_request = Inr \<lparr>StatusCode = 503\<rparr> \<and>
   post unavailable_world ''http://sink/'' deal_request = None \<and>
   Content deal_done = StreamContentRFC822 \<and>
   NewRequestWithContext unavailable_world ''POST'' (URL deal_done) = None \<and>
   handleMessage unavailable_world deal_done deal_message = Inr None"
  using status_guard_never_fires
    [of 503 unavailable_world deal_request "\<lparr>StatusCode = 503\<rparr>" "''http://sink/''"
        deal_done deal_message "[]" None]
  by (simp add: unavailable_world_def refusing_world_def deal_done_def deal_rule_def
      NewStreamRule_def)


section \<open>Delivery of the HTML part\<close>


















section \<open>The action step of every rule\<close>

text \<open>
  The \<^verbatim>\<open>Rule\<close> interface of rules/rules.go has four implementations; a call of
  \<^verbatim>\<open>Message\<close> or \<^verbatim>\<open>Action\<close> on a rule dispatches on them.
\<close>

datatype Rule =
    Rule_Move MoveRule
  | Rule_Flag FlagRule
  | Rule_Unflag UnflagRule
  | Rule_Stream CmdStreamRule

fun Rule_Message :: "regexp_match \<Rightarrow> Rule \<Rightarrow> Message \<Rightarrow> panic + Rule" where
  "Rule_Message rx (Rule_Move r) msg = map_sum id Rule_Move (MoveRule_Message rx r msg)"
| "Rule_Message rx (Rule_Flag r) msg = map_sum id Rule_Flag (FlagRule_Message rx r msg)"
| "Rule_Message rx (Rule_Unflag r) msg = map_sum id Rule_Unflag (UnflagRule_Message rx r msg)"
| "Rule_Message rx (Rule_Stream r) msg = map_sum id Rule_Stream (CmdStreamRule_Message rx r msg)"

















section \<open>The lexer\<close>

text \<open>
  The lexer works on bytes and runes. A rune is Go's \<^verbatim>\<open>int32\<close>; the lexer only compares
  runes, so they are integers here, and \<open>-1\<close> stands for the end of the input.
\<close>

datatype TokenType =
    TokenError | TokenEOF
  | TokenComment | TokenIdentifier | TokenNumber | TokenQuote
  | TokenPlus | TokenMinus | TokenMultiply | TokenDivide | TokenPeriod | TokenBackslash
  | TokenColon | TokenPercent | TokenPipe | TokenExclamation | TokenQuestion | TokenPound
  | TokenAmpersand | TokenSemi | TokenComma | TokenLeftParen | TokenRightParen
  | TokenLeftAngle | TokenRightAngle | TokenLeftBrace | TokenRightBrace
  | TokenLeftBracket | TokenRightBracket | TokenEquals | TokenTilde
  | TokenIf | TokenMove | TokenAnd | TokenOr | TokenNot | TokenThen | TokenFlag
  | TokenUnflag | TokenStream

record Token =
  Type :: TokenType
  Value :: string
  Position :: nat

definition reservedWords :: "string \<Rightarrow> TokenType option" where
  "reservedWords val =
     (if val = ''if'' then Some TokenIf
      else if val = ''move'' then Some TokenMove
      else if val = ''and'' then Some TokenAnd
      else if val = ''or'' then Some TokenOr
      else if val = ''not'' then Some TokenNot
      else if val = ''then'' then Some TokenThen
      else if val = ''flag'' then Some TokenFlag
      else if val = ''unflag'' then Some TokenUnflag
      else if val = ''stream'' then Some TokenStream
      else None)"

definition makeErrorToken :: "nat \<Rightarrow> Token" where
  "makeErrorToken pos = \<lparr>Type = TokenError, Value = [], Position = pos\<rparr>"

text \<open>
  \<^verbatim>\<open>opTable\<close> is an array indexed by the rune; its length is one more than the rune of the
  tilde. The entries that the source does not list are zero, which is \<^verbatim>\<open>TokenError\<close>.
\<close>

definition opTable :: "int \<Rightarrow> TokenType" where
  "opTable c =
     (if c = 0x2B then TokenPlus
      else if c = 0x2D then TokenMinus
      else if c = 0x2A then TokenMultiply
      else if c = 0x2F then TokenDivide
      else if c = 0x2E then TokenPeriod
      else if c = 0x5C then TokenBackslash
      else if c = 0x3A then TokenColon
      else if c = 0x25 then TokenPercent
      else if c = 0x7C then TokenPipe
      else if c = 0x21 then TokenExclamation
      else if c = 0x3F then TokenQuestion
      else if c = 0x23 then TokenPound
      else if c = 0x26 then TokenAmpersand
      else if c = 0x3B then TokenSemi
      else if c = 0x2C then TokenComma
      else if c = 0x28 then TokenLeftParen
      else if c = 0x29 then TokenRightParen
      else if c = 0x3C then TokenLeftAngle
      else if c = 0x3E then TokenRightAngle
      else if c = 0x7B then TokenLeftBrace
      else if c = 0x7D then TokenRightBrace
      else if c = 0x5B then TokenLeftBracket
      else if c = 0x5D then TokenRightBracket
      else if c = 0x3D then TokenEquals
      else if c = 0x7E then TokenTilde
      else TokenError)"

definition len_opTable :: int where
  "len_opTable = 0x7F"

text \<open>
  \<^verbatim>\<open>utf8.DecodeRune\<close> of the standard library: the rune that starts a byte string and its
  width; an invalid or truncated encoding gives \<^verbatim>\<open>RuneError\<close> with width 1.
\<close>

definition RuneError :: int where
  "RuneError = 0xFFFD"

definition DecodeRune :: "string \<Rightarrow> int \<times> nat" where
  "DecodeRune p =
     (case map of_char p of
        [] \<Rightarrow> (RuneError, 0)
      | p0 # rest \<Rightarrow>
          if (p0::nat) < 0x80 then (int p0, 1)
          else if p0 < 0xC2 \<or> 0xF4 < p0 then (RuneError, 1)
          else
            (let sz = (if p0 < 0xE0 then 2 else if p0 < 0xF0 then 3 else (4::nat));
                 lo = (if p0 = 0xE0 then 0xA0 else if p0 = 0xF0 then 0x90 else 0x80);
                 hi = (if p0 = 0xED then 0x9F else if p0 = 0xF4 then 0x8F else 0xBF)
             in if length p < sz then (RuneError, 1)
                else (let b1 = rest ! 0 in
                  if b1 < lo \<or> hi < b1 then (RuneError, 1)
                  else if sz \<le> 2 then (int ((p0 mod 32) * 64 + b1 mod 64), 2)
                  else (let b2 = rest ! 1 in
                    if b2 < 0x80 \<or> 0xBF < b2 then (RuneError, 1)
                    else if sz \<le> 3
                      then (int ((p0 mod 16) * 4096 + (b1 mod 64) * 64 + b2 mod 64), 3)
                    else (let b3 = rest ! 2 in
                      if b3 < 0x80 \<or> 0xBF < b3 then (RuneError, 1)
                      else (int ((p0 mod 8) * 262144 + (b1 mod 64) * 4096
                                  + (b2 mod 64) * 64 + b3 mod 64), 4))))))"

text \<open>
  The fields of \<^verbatim>\<open>Lexer\<close>; the current rune \<^verbatim>\<open>r\<close> is called \<open>rune\<close>. The method
  \<^verbatim>\<open>next\<close> is \<open>next_rune\<close>.
\<close>

record Lexer =
  buf :: string
  rune :: int
  rpos :: nat
  nextpos :: nat

definition next_rune :: "Lexer \<Rightarrow> Lexer" where
  "next_rune lx =
     (if nextpos lx < length (buf lx) then
        (let r0 = (of_char (buf lx ! nextpos lx) :: int);
             (r1, w) = (if r0 \<ge> 0x80 then DecodeRune (drop (nextpos lx) (buf lx)) else (r0, 1))
         in lx\<lparr>rpos := nextpos lx, nextpos := nextpos lx + w, rune := r1\<rparr>)
      else lx\<lparr>rpos := length (buf lx), rune := -1\<rparr>)"

definition NewLexer :: "string \<Rightarrow> Lexer" where
  "NewLexer b = next_rune \<lparr>buf = b, rune = -1, rpos = 0, nextpos = 0\<rparr>"

definition peekNextByte :: "Lexer \<Rightarrow> int" where
  "peekNextByte lx =
     (if nextpos lx < length (buf lx) then of_char (buf lx ! nextpos lx) else -1)"

definition isAlpha :: "int \<Rightarrow> bool" where
  "isAlpha c = (0x61 \<le> c \<and> c \<le> 0x7A \<or> 0x41 \<le> c \<and> c \<le> 0x5A \<or> c = 0x5F \<or> c = 0x24)"

definition isDigit :: "int \<Rightarrow> bool" where
  "isDigit c = (0x30 \<le> c \<and> c \<le> 0x39)"

text \<open>The slice \<^verbatim>\<open>b[i:j]\<close>, for \<open>i \<le> j \<le> length b\<close>.\<close>

definition slice :: "string \<Rightarrow> nat \<Rightarrow> nat \<Rightarrow> string" where
  "slice b i j = take (j - i) (drop i b)"

text \<open>What is left to read: the measure of every loop of the lexer.\<close>

definition remaining :: "Lexer \<Rightarrow> nat" where
  "remaining lx = length (buf lx) - nextpos lx + (if rune lx \<ge> 0 then 1 else 0)"

lemma DecodeRune_width: "p \<noteq> [] \<Longrightarrow> 1 \<le> snd (DecodeRune p)"
  by (cases p) (simp_all add: DecodeRune_def Let_def)

lemma next_rune_less: "0 \<le> rune lx \<Longrightarrow> remaining (next_rune lx) < remaining lx"
proof (cases "nextpos lx < length (buf lx)")
  case True
  then have "drop (nextpos lx) (buf lx) \<noteq> []" by simp
  from DecodeRune_width [OF this] True show ?thesis
    if "0 \<le> rune lx"
    using that by (auto simp: next_rune_def remaining_def Let_def split: prod.splits)
next
  case False
  then show ?thesis if "0 \<le> rune lx"
    using that by (simp add: next_rune_def remaining_def)
qed

lemma next_rune_le: "remaining (next_rune lx) \<le> remaining lx"
proof (cases "nextpos lx < length (buf lx)")
  case True
  then have "drop (nextpos lx) (buf lx) \<noteq> []" by simp
  from DecodeRune_width [OF this] True show ?thesis
    by (auto simp: next_rune_def remaining_def Let_def split: prod.splits)
next
  case False
  then show ?thesis
    by (simp add: next_rune_def remaining_def)
qed

function skipNontokens :: "Lexer \<Rightarrow> Lexer" where
  "skipNontokens lx =
     (if rune lx = 0x20 \<or> rune lx = 0x09 \<or> rune lx = 0x0A \<or> rune lx = 0x0D
      then skipNontokens (next_rune lx) else lx)"
  by pat_completeness auto
termination
  by (relation "measure remaining") (auto intro: next_rune_less)

declare skipNontokens.simps [simp del]

function scanIdentifier_loop :: "Lexer \<Rightarrow> Lexer" where
  "scanIdentifier_loop lx =
     (if isAlpha (rune lx) \<or> isDigit (rune lx) then scanIdentifier_loop (next_rune lx) else lx)"
  by pat_completeness auto
termination
  by (relation "measure remaining") (auto intro: next_rune_less simp: isAlpha_def isDigit_def)

declare scanIdentifier_loop.simps [simp del]

definition scanIdentifier :: "Lexer \<Rightarrow> Token \<times> Lexer" where
  "scanIdentifier lx =
     (let startpos = rpos lx;
          lx' = scanIdentifier_loop lx;
          val = slice (buf lx') startpos (rpos lx')
      in case reservedWords val of
           Some typ \<Rightarrow> (\<lparr>Type = typ, Value = val, Position = startpos\<rparr>, lx')
         | None \<Rightarrow> (\<lparr>Type = TokenIdentifier, Value = val, Position = startpos\<rparr>, lx'))"

function scanNumber_loop :: "Lexer \<Rightarrow> Lexer" where
  "scanNumber_loop lx = (if isDigit (rune lx) then scanNumber_loop (next_rune lx) else lx)"
  by pat_completeness auto
termination
  by (relation "measure remaining") (auto intro: next_rune_less simp: isDigit_def)

declare scanNumber_loop.simps [simp del]

definition scanNumber :: "Lexer \<Rightarrow> Token \<times> Lexer" where
  "scanNumber lx =
     (let startpos = rpos lx;
          lx' = scanNumber_loop lx
      in (\<lparr>Type = TokenNumber, Value = slice (buf lx') startpos (rpos lx'), Position = startpos\<rparr>,
          lx'))"

text \<open>
  The loop of \<^verbatim>\<open>scanQuote\<close> ends with the early return of an error token, or with the lexer
  at the rune where the loop condition fails.
\<close>

function scanQuote_loop :: "Lexer \<Rightarrow> (Token \<times> Lexer) + Lexer" where
  "scanQuote_loop lx =
     (if rune lx > 0 \<and> rune lx \<noteq> 0x22 then
        (if rune lx = 0x5C then
           (let lx1 = next_rune lx in
            if rune lx1 = 0x5C \<or> rune lx1 = 0x22 then scanQuote_loop (next_rune lx1)
            else Inl (makeErrorToken (rpos lx1), lx1))
         else scanQuote_loop (next_rune lx))
      else Inr lx)"
  by pat_completeness auto
termination
proof (relation "measure remaining", goal_cases)
  case 1
  then show ?case by simp
next
  case (2 lx x)
  then have "0 \<le> rune x" by auto
  from next_rune_less [OF this] next_rune_le [of lx] 2 show ?case by simp
next
  case (3 lx)
  then show ?case by (auto intro: next_rune_less)
qed

declare scanQuote_loop.simps [simp del]

definition scanQuote :: "Lexer \<Rightarrow> Token \<times> Lexer" where
  "scanQuote lx =
     (let startpos = rpos lx in
      case scanQuote_loop (next_rune lx) of
        Inl early \<Rightarrow> early
      | Inr lx' \<Rightarrow>
          if rune lx' < 0 then (makeErrorToken startpos, lx')
          else (let lx'' = next_rune lx' in
                (\<lparr>Type = TokenQuote, Value = slice (buf lx'') startpos (rpos lx''),
                  Position = startpos\<rparr>, lx'')))"

function scanComment_loop :: "Lexer \<Rightarrow> Lexer" where
  "scanComment_loop lx =
     (if rune lx > 0 \<and> rune lx \<noteq> 0x0A then scanComment_loop (next_rune lx) else lx)"
  by pat_completeness auto
termination
  by (relation "measure remaining") (auto intro: next_rune_less)

declare scanComment_loop.simps [simp del]

definition scanComment :: "Lexer \<Rightarrow> Token \<times> Lexer" where
  "scanComment lx =
     (let startpos = rpos lx;
          lx' = scanComment_loop (next_rune lx);
          tok = \<lparr>Type = TokenComment, Value = slice (buf lx') startpos (rpos lx'),
                 Position = startpos\<rparr>
      in (tok, next_rune lx'))"

definition NextToken :: "Lexer \<Rightarrow> Token \<times> Lexer" where
  "NextToken lx0 =
     (let lx = skipNontokens lx0 in
      if rune lx < 0 then (\<lparr>Type = TokenEOF, Value = [], Position = nextpos lx\<rparr>, lx)
      else if rune lx < len_opTable \<and> opTable (rune lx) \<noteq> TokenError then
        (if opTable (rune lx) = TokenDivide \<and> peekNextByte lx = 0x2F then scanComment lx
         else (let startpos = rpos lx;
                   lx' = next_rune lx
               in (\<lparr>Type = opTable (rune lx), Value = slice (buf lx') startpos (rpos lx'),
                    Position = startpos\<rparr>, lx')))
      else if isAlpha (rune lx) then scanIdentifier lx
      else if isDigit (rune lx) then scanNumber lx
      else if rune lx = 0x22 then scanQuote lx
      else (makeErrorToken (rpos lx), lx))"


lemma skipNontokens_le: "remaining (skipNontokens lx) \<le> remaining lx"
proof (induction lx rule: skipNontokens.induct)
  case (1 lx)
  show ?case
  proof (cases "rune lx = 0x20 \<or> rune lx = 0x09 \<or> rune lx = 0x0A \<or> rune lx = 0x0D")
    case True
    from "1.IH" [OF True] next_rune_le [of lx]
    have "remaining (skipNontokens (next_rune lx)) \<le> remaining lx" by (rule order_trans)
    moreover from True have "skipNontokens lx = skipNontokens (next_rune lx)"
      by (subst skipNontokens.simps) (simp only: if_True simp_thms)
    ultimately show ?thesis by simp
  next
    case False
    then have "skipNontokens lx = lx"
      by (subst skipNontokens.simps) (simp only: if_False simp_thms)
    then show ?thesis by simp
  qed
qed

lemma scanIdentifier_loop_le: "remaining (scanIdentifier_loop lx) \<le> remaining lx"
proof (induction lx rule: scanIdentifier_loop.induct)
  case (1 lx)
  show ?case
  proof (cases "isAlpha (rune lx) \<or> isDigit (rune lx)")
    case True
    from "1.IH" [OF True] next_rune_le [of lx]
    have "remaining (scanIdentifier_loop (next_rune lx)) \<le> remaining lx" by (rule order_trans)
    moreover from True have "scanIdentifier_loop lx = scanIdentifier_loop (next_rune lx)"
      by (subst scanIdentifier_loop.simps) (simp only: if_True simp_thms)
    ultimately show ?thesis by simp
  next
    case False
    then have "scanIdentifier_loop lx = lx"
      by (subst scanIdentifier_loop.simps) (simp only: if_False simp_thms)
    then show ?thesis by simp
  qed
qed

lemma scanNumber_loop_le: "remaining (scanNumber_loop lx) \<le> remaining lx"
proof (induction lx rule: scanNumber_loop.induct)
  case (1 lx)
  show ?case
  proof (cases "isDigit (rune lx)")
    case True
    from "1.IH" [OF True] next_rune_le [of lx]
    have "remaining (scanNumber_loop (next_rune lx)) \<le> remaining lx" by (rule order_trans)
    moreover from True have "scanNumber_loop lx = scanNumber_loop (next_rune lx)"
      by (subst scanNumber_loop.simps) (simp only: if_True simp_thms)
    ultimately show ?thesis by simp
  next
    case False
    then have "scanNumber_loop lx = lx"
      by (subst scanNumber_loop.simps) (simp only: if_False simp_thms)
    then show ?thesis by simp
  qed
qed

lemma scanComment_loop_le: "remaining (scanComment_loop lx) \<le> remaining lx"
proof (induction lx rule: scanComment_loop.induct)
  case (1 lx)
  show ?case
  proof (cases "rune lx > 0 \<and> rune lx \<noteq> 0x0A")
    case True
    from "1.IH" [OF True] next_rune_le [of lx]
    have "remaining (scanComment_loop (next_rune lx)) \<le> remaining lx" by (rule order_trans)
    moreover from True have "scanComment_loop lx = scanComment_loop (next_rune lx)"
      by (subst scanComment_loop.simps) (simp only: if_True simp_thms)
    ultimately show ?thesis by simp
  next
    case False
    then have "scanComment_loop lx = lx"
      by (subst scanComment_loop.simps) (simp only: if_False simp_thms)
    then show ?thesis by simp
  qed
qed

lemma scanQuote_loop_le: "scanQuote_loop lx = Inr lx' \<Longrightarrow> remaining lx' \<le> remaining lx"
proof (induction lx rule: scanQuote_loop.induct)
  case (1 lx)
  show ?case
  proof (cases "rune lx > 0 \<and> rune lx \<noteq> 0x22")
    case False
    with "1.prems" show ?thesis by (subst (asm) scanQuote_loop.simps) simp
  next
    case go: True
    show ?thesis
    proof (cases "rune lx = 0x5C")
      case False
      with go "1.prems" have "scanQuote_loop (next_rune lx) = Inr lx'"
        by (subst (asm) scanQuote_loop.simps) simp
      with "1.IH"(2) go False have "remaining lx' \<le> remaining (next_rune lx)" by simp
      also have "\<dots> \<le> remaining lx" by (rule next_rune_le)
      finally show ?thesis .
    next
      case True
      from "1.prems" have unfolded:
        "(if rune (next_rune lx) = 0x5C \<or> rune (next_rune lx) = 0x22
          then scanQuote_loop (next_rune (next_rune lx))
          else Inl (makeErrorToken (rpos (next_rune lx)), next_rune lx)) = Inr lx'"
        using go True by (subst (asm) scanQuote_loop.simps) (simp add: Let_def)
      then have esc: "rune (next_rune lx) = 0x5C \<or> rune (next_rune lx) = 0x22"
        and rec: "scanQuote_loop (next_rune (next_rune lx)) = Inr lx'"
        by (simp_all split: if_splits)
      with "1.IH"(1) go True have "remaining lx' \<le> remaining (next_rune (next_rune lx))" by simp
      also have "\<dots> \<le> remaining (next_rune lx)" by (rule next_rune_le)
      also have "\<dots> \<le> remaining lx" by (rule next_rune_le)
      finally show ?thesis .
    qed
  qed
qed

lemma scanQuote_loop_early: "scanQuote_loop lx = Inl (tok, lx') \<Longrightarrow> Type tok = TokenError"
proof (induction lx rule: scanQuote_loop.induct)
  case (1 lx)
  show ?case
  proof (cases "rune lx > 0 \<and> rune lx \<noteq> 0x22")
    case False
    with "1.prems" show ?thesis by (subst (asm) scanQuote_loop.simps) simp
  next
    case go: True
    show ?thesis
    proof (cases "rune lx = 0x5C")
      case False
      with go "1.prems" have "scanQuote_loop (next_rune lx) = Inl (tok, lx')"
        by (subst (asm) scanQuote_loop.simps) simp
      with "1.IH"(2) go False show ?thesis by simp
    next
      case True
      from "1.prems" have unfolded:
        "(if rune (next_rune lx) = 0x5C \<or> rune (next_rune lx) = 0x22
          then scanQuote_loop (next_rune (next_rune lx))
          else Inl (makeErrorToken (rpos (next_rune lx)), next_rune lx)) = Inl (tok, lx')"
        using go True by (subst (asm) scanQuote_loop.simps) (simp add: Let_def)
      show ?thesis
      proof (cases "rune (next_rune lx) = 0x5C \<or> rune (next_rune lx) = 0x22")
        case esc: True
        with unfolded have "scanQuote_loop (next_rune (next_rune lx)) = Inl (tok, lx')"
          by (simp only: if_True)
        with "1.IH"(1) go True esc show ?thesis by simp
      next
        case False
        with unfolded have "tok = makeErrorToken (rpos (next_rune lx))"
          by (simp only: if_False) auto
        then show ?thesis by (simp add: makeErrorToken_def)
      qed
    qed
  qed
qed

lemma opTable_not_special:
  "opTable c \<noteq> TokenEOF" "opTable c \<noteq> TokenComment"
  by (simp_all add: opTable_def)

lemma NextToken_less:
  assumes "NextToken lx0 = (tok, lx')" and "Type tok \<noteq> TokenEOF" and "Type tok \<noteq> TokenError"
  shows "remaining lx' < remaining lx0"
proof -
  define lx where "lx = skipNontokens lx0"
  have le: "remaining lx \<le> remaining lx0"
    unfolding lx_def by (rule skipNontokens_le)
  have nonneg: "0 \<le> rune lx"
    using assms by (auto simp: NextToken_def Let_def lx_def [symmetric] split: if_splits)
  have first: "remaining (next_rune lx) < remaining lx"
    by (rule next_rune_less [OF nonneg])
  consider (comment) "(tok, lx') = scanComment lx"
    | (op) "lx' = next_rune lx"
    | (ident) "isAlpha (rune lx)" "(tok, lx') = scanIdentifier lx"
    | (number) "isDigit (rune lx)" "(tok, lx') = scanNumber lx"
    | (quote) "(tok, lx') = scanQuote lx"
    using assms
    by (auto simp: NextToken_def Let_def lx_def [symmetric] makeErrorToken_def split: if_splits)
  then have "remaining lx' < remaining lx"
  proof cases
    case comment
    then have "lx' = next_rune (scanComment_loop (next_rune lx))"
      by (simp add: scanComment_def Let_def)
    then have "remaining lx' \<le> remaining (scanComment_loop (next_rune lx))"
      by (simp add: next_rune_le)
    also have "\<dots> \<le> remaining (next_rune lx)" by (rule scanComment_loop_le)
    finally show ?thesis using first by simp
  next
    case op
    with first show ?thesis by simp
  next
    case ident
    then have "lx' = scanIdentifier_loop lx"
      by (auto simp: scanIdentifier_def Let_def split: option.splits)
    also have "\<dots> = scanIdentifier_loop (next_rune lx)"
      using ident(1) by (subst scanIdentifier_loop.simps) (simp only: if_True simp_thms)
    finally have "remaining lx' \<le> remaining (next_rune lx)"
      by (simp add: scanIdentifier_loop_le)
    with first show ?thesis by simp
  next
    case number
    then have "lx' = scanNumber_loop lx"
      by (auto simp: scanNumber_def Let_def)
    also have "\<dots> = scanNumber_loop (next_rune lx)"
      using number(1) by (subst scanNumber_loop.simps) (simp only: if_True simp_thms)
    finally have "remaining lx' \<le> remaining (next_rune lx)"
      by (simp add: scanNumber_loop_le)
    with first show ?thesis by simp
  next
    case quote
    with assms(3) obtain lx1 where loop: "scanQuote_loop (next_rune lx) = Inr lx1"
      and "lx' = next_rune lx1"
      by (auto simp: scanQuote_def Let_def makeErrorToken_def
               dest: scanQuote_loop_early split: sum.splits if_splits)
    then have "remaining lx' \<le> remaining lx1" by (simp add: next_rune_le)
    also have "\<dots> \<le> remaining (next_rune lx)" by (rule scanQuote_loop_le [OF loop])
    finally show ?thesis using first by simp
  qed
  with le show ?thesis by simp
qed

text \<open>
  The tokens that successive calls of \<^verbatim>\<open>NextToken\<close> return, up to and including the first
  EOF or error token.
\<close>

function Lexer_tokens :: "Lexer \<Rightarrow> Token list" where
  "Lexer_tokens lx =
     (case NextToken lx of
        (tok, lx') \<Rightarrow>
          if Type tok = TokenEOF \<or> Type tok = TokenError then [tok]
          else tok # Lexer_tokens lx')"
  by pat_completeness auto
termination
proof (relation "measure remaining", goal_cases)
  case 1
  show ?case by simp
next
  case (2 lx tok lx')
  then have "NextToken lx = (tok, lx')" by simp
  from NextToken_less [OF this] 2 show ?case by simp
qed

declare Lexer_tokens.simps [simp del]


section \<open>The parser\<close>

datatype yytoken =
    IDENTIFIER | QUOTE | TILDE | EQUALS | THEN | SEMICOLON | IF | MOVE | FLAG | UNFLAG
  | STREAM | LPAREN | RPAREN | AND | OR | NOT

definition tokenNumbers :: "TokenType \<Rightarrow> yytoken option" where
  "tokenNumbers typ =
     (if typ = TokenIdentifier then Some IDENTIFIER
      else if typ = TokenQuote then Some QUOTE
      else if typ = TokenEquals then Some EQUALS
      else if typ = TokenTilde then Some TILDE
      else if typ = TokenSemi then Some SEMICOLON
      else if typ = TokenIf then Some IF
      else if typ = TokenMove then Some MOVE
      else if typ = TokenAnd then Some AND
      else if typ = TokenOr then Some OR
      else if typ = TokenNot then Some NOT
      else if typ = TokenThen then Some THEN
      else if typ = TokenFlag then Some FLAG
      else if typ = TokenUnflag then Some UNFLAG
      else if typ = TokenStream then Some STREAM
      else if typ = TokenLeftParen then Some LPAREN
      else if typ = TokenRightParen then Some RPAREN
      else None)"


text \<open>
  \<^verbatim>\<open>Parser.Lex\<close> asks the lexer for tokens. Lexing does not depend on parsing, so the
  parser holds the lexer as the tokens that \<^verbatim>\<open>NextToken\<close> is going to return. \<^verbatim>\<open>Lex\<close> answers
  with a token number; the generated parser takes a number that is not positive for the
  end of the input, which is \<open>None\<close> here. That is what \<^verbatim>\<open>Lex\<close> returns for the EOF and
  error tokens (\<open>-1\<close>), and also for a token type that \<^verbatim>\<open>tokenNumbers\<close> does not list, whose
  entry in the array is zero.
\<close>

record Parser =
  lexer :: "Token list"
  last_tok :: Token
  result :: "Rule list"
  err :: "error option"

definition NewParser :: "Lexer \<Rightarrow> Parser" where
  "NewParser lx =
     \<lparr>lexer = Lexer_tokens lx, last_tok = \<lparr>Type = TokenError, Value = [], Position = 0\<rparr>,
      result = [], err = None\<rparr>"

function Parser_Lex :: "Parser \<Rightarrow> (yytoken \<times> string) option \<times> Parser" where
  "Parser_Lex p =
     (case lexer p of
        [] \<Rightarrow> (None, p)
      | tok # rest \<Rightarrow>
          (let p' = p\<lparr>lexer := rest, last_tok := tok\<rparr> in
           if Type tok = TokenEOF then (None, p')
           else if Type tok = TokenError
             then (None, p'\<lparr>err := Some (Errorf ''lexing error: %s'' [S (Value tok)] None)\<rparr>)
           else if Type tok = TokenComment then Parser_Lex p'
           else (case tokenNumbers (Type tok) of
                   None \<Rightarrow> (None, p')
                 | Some t \<Rightarrow> (Some (t, Value tok), p'))))"
  by pat_completeness auto
termination
  by (relation "measure (\<lambda>p. length (lexer p))") auto

declare Parser_Lex.simps [simp del]

definition Parser_Error :: "Parser \<Rightarrow> arg \<Rightarrow> Parser" where
  "Parser_Error p msg =
     p\<lparr>err := Some (Errorf ''%s near position %d'' [msg, D (int (Position (last_tok p)))] None)\<rparr>"

subsection \<open>The grammars\<close>

text \<open>
  The repository holds two revisions of the grammar, parse/rules.y and a later one with
  stream rules. Their productions and their precedence declarations are the same, apart
  from two things: the later one has the production for \<^verbatim>\<open>stream\<close>, and it reads the
  operand of a comparison or action through the nonterminal \<^verbatim>\<open>string\<close>, which removes the
  quotes and the escapes, where rules.y takes the token between its first and last byte.
\<close>

record grammar =
  has_stream :: bool
  string_value :: "string \<Rightarrow> panic + string"

text \<open>The slice expression \<^verbatim>\<open>$1[1:len($1)-1]\<close>, which panics on fewer than two bytes.\<close>

definition inner :: "string \<Rightarrow> panic + string" where
  "inner v = (if length v < 2 then Inl SliceBounds else Inr (slice v 1 (length v - 1)))"

text \<open>\<^verbatim>\<open>strings.ReplaceAll\<close> for an \<open>old\<close> of two bytes and a \<open>new\<close> of one.\<close>

fun ReplaceAll :: "string \<Rightarrow> char \<times> char \<Rightarrow> char \<Rightarrow> string" where
  "ReplaceAll (a # b # rest) old new =
     (if (a, b) = old then new # ReplaceAll rest old new else a # ReplaceAll (b # rest) old new)"
| "ReplaceAll s old new = s"

definition unescape :: "string \<Rightarrow> string" where
  "unescape s =
     ReplaceAll (ReplaceAll s (CHR 0x5C, CHR 0x22) (CHR 0x22)) (CHR 0x5C, CHR 0x5C) (CHR 0x5C)"

definition rules_y :: grammar where
  "rules_y = \<lparr>has_stream = False, string_value = inner\<rparr>"

definition rules_stream_y :: grammar where
  "rules_stream_y = \<lparr>has_stream = True, string_value = (\<lambda>v. map_sum id unescape (inner v))\<rparr>"

subsection \<open>Precedence\<close>

text \<open>
  \<^verbatim>\<open>%left AND OR\<close> and then \<^verbatim>\<open>%right NOT\<close>: a later declaration binds tighter. A production has
  the precedence of its last terminal. Where the parser could reduce by a production or
  shift the lookahead, yacc reduces when the production binds tighter than the
  lookahead, shifts when it binds less, and on equal levels reduces for a left
  associative lookahead and shifts for a right associative one; without a declared
  precedence it shifts.
\<close>

datatype assoc = LeftAssoc | RightAssoc

definition precedence :: "yytoken \<Rightarrow> (nat \<times> assoc) option" where
  "precedence t =
     (if t = AND \<or> t = OR then Some (1, LeftAssoc)
      else if t = NOT then Some (2, RightAssoc)
      else None)"

datatype resolution = ByShift | ByReduce

definition resolve :: "yytoken \<Rightarrow> yytoken \<Rightarrow> resolution" where
  "resolve production_token lookahead =
     (case (precedence production_token, precedence lookahead) of
        (Some (pp, pa), Some (lp, la)) \<Rightarrow>
          if lp < pp then ByReduce
          else if pp < lp then ByShift
          else (case la of LeftAssoc \<Rightarrow> ByReduce | RightAssoc \<Rightarrow> ByShift)
      | _ \<Rightarrow> ByShift)"

subsection \<open>The parser's stack and its moves\<close>

text \<open>
  The stack holds grammar symbols with their values: a terminal with the token's text, a
  nonterminal with the value of its \<^verbatim>\<open>%type\<close>.
\<close>

datatype sym =
    T yytoken string
  | N_condition Predicate
  | N_move MoveRule
  | N_flag FlagRule
  | N_unflag UnflagRule
  | N_stream CmdStreamRule
  | N_rule Rule
  | N_rules "Rule list"

datatype yyaction =
    Shift
  | Reduce "sym list"
  | Accept "Rule list"
  | SyntaxError
  | ActionError arg
  | ActionPanic panic

text \<open>The semantic action of the two \<^verbatim>\<open>comparison\<close> productions.\<close>

definition reduce_comparison ::
  "(string \<Rightarrow> error option) \<Rightarrow> grammar \<Rightarrow> string \<Rightarrow> yytoken \<Rightarrow> string \<Rightarrow> sym list \<Rightarrow> yyaction" where
  "reduce_comparison Compile g field op quoted below =
     (case string_value g quoted of
        Inl p \<Rightarrow> ActionPanic p
      | Inr s \<Rightarrow>
          if op = TILDE then
            (case Compile s of
               Some e \<Rightarrow>
                 ActionError (V (Errorf (''malformed regex '' @ [CHR 0x27] @ ''%s'' @ [CHR 0x27]
                                           @ '' in predicate: %v'') [S s, V e] None))
             | None \<Rightarrow>
                 (case NewFieldPredicate field (Regexp s) of
                    Inl e \<Rightarrow> ActionError (V e)
                  | Inr predicate \<Rightarrow> Reduce (N_condition predicate # below)))
          else
            (case NewFieldPredicate field (StringEqualsPredicate s) of
               Inl e \<Rightarrow> ActionError (V e)
             | Inr predicate \<Rightarrow> Reduce (N_condition predicate # below)))"

text \<open>
  With a complete \<^verbatim>\<open>NOT condition\<close> or \<^verbatim>\<open>condition AND condition\<close> on the stack and \<^verbatim>\<open>AND\<close> or
  \<^verbatim>\<open>OR\<close> as lookahead the parser could reduce or shift; the precedences decide. With any
  other lookahead it can only reduce.
\<close>

definition reduce_or_shift :: "yytoken \<Rightarrow> yytoken option \<Rightarrow> sym list \<Rightarrow> yyaction" where
  "reduce_or_shift production_token la reduced =
     (case la of
        None \<Rightarrow> Reduce reduced
      | Some t \<Rightarrow>
          if t = AND \<or> t = OR
          then (case resolve production_token t of ByShift \<Rightarrow> Shift | ByReduce \<Rightarrow> Reduce reduced)
          else Reduce reduced)"

definition expect_condition :: "yytoken option \<Rightarrow> yyaction" where
  "expect_condition la =
     (if la = Some IDENTIFIER \<or> la = Some NOT \<or> la = Some LPAREN then Shift else SyntaxError)"

definition expect_quote :: "yytoken option \<Rightarrow> yyaction" where
  "expect_quote la = (if la = Some QUOTE then Shift else SyntaxError)"

text \<open>The move with a condition on top of the stack.\<close>

definition after_condition :: "Predicate \<Rightarrow> sym list \<Rightarrow> yytoken option \<Rightarrow> yyaction" where
  "after_condition c below la =
     (case below of
        T t v # below1 \<Rightarrow>
          if t = NOT then reduce_or_shift NOT la (N_condition (NotPredicate c) # below1)
          else if t = AND then
            (case below1 of
               N_condition l # below2 \<Rightarrow>
                 reduce_or_shift AND la (N_condition (AndPredicate l c) # below2)
             | _ \<Rightarrow> SyntaxError)
          else if t = OR then
            (case below1 of
               N_condition l # below2 \<Rightarrow>
                 reduce_or_shift OR la (N_condition (OrPredicate l c) # below2)
             | _ \<Rightarrow> SyntaxError)
          else if t = IF
            then (if la = Some AND \<or> la = Some OR \<or> la = Some THEN then Shift else SyntaxError)
          else if t = LPAREN
            then (if la = Some AND \<or> la = Some OR \<or> la = Some RPAREN then Shift else SyntaxError)
          else SyntaxError
      | _ \<Rightarrow> SyntaxError)"

text \<open>The move with a quoted string on top of the stack: a comparison or an action is complete.\<close>

definition after_quote ::
  "(string \<Rightarrow> error option) \<Rightarrow> grammar \<Rightarrow> string \<Rightarrow> sym list \<Rightarrow> yyaction" where
  "after_quote Compile g quoted below =
     (case below of
        T t1 v1 # below1 \<Rightarrow>
          if t1 = TILDE \<or> t1 = EQUALS then
            (case below1 of
               T t2 v2 # below2 \<Rightarrow>
                 if t2 = IDENTIFIER then reduce_comparison Compile g v2 t1 quoted below2
                 else SyntaxError
             | _ \<Rightarrow> SyntaxError)
          else if t1 = MOVE \<or> t1 = FLAG \<or> t1 = UNFLAG \<or> t1 = STREAM then
            (case string_value g quoted of
               Inl p \<Rightarrow> ActionPanic p
             | Inr s \<Rightarrow>
                 if t1 = MOVE then Reduce (N_move (NewMoveRule None s) # below1)
                 else if t1 = FLAG then Reduce (N_flag (NewFlagRule None s) # below1)
                 else if t1 = UNFLAG then Reduce (N_unflag (NewUnflagRule None s) # below1)
                 else Reduce (N_stream (NewCmdStreamRule None s) # below1))
          else SyntaxError
      | _ \<Rightarrow> SyntaxError)"

text \<open>The move with a terminal on top of the stack.\<close>

definition after_token ::
  "(string \<Rightarrow> error option) \<Rightarrow> grammar \<Rightarrow> yytoken \<Rightarrow> string \<Rightarrow> sym list \<Rightarrow> yytoken option
     \<Rightarrow> yyaction" where
  "after_token Compile g t v below la =
     (if t = IF \<or> t = NOT \<or> t = LPAREN \<or> t = AND \<or> t = OR then expect_condition la
      else if t = IDENTIFIER
        then (if la = Some TILDE \<or> la = Some EQUALS then Shift else SyntaxError)
      else if t = TILDE \<or> t = EQUALS then expect_quote la
      else if t = QUOTE then after_quote Compile g v below
      else if t = RPAREN then
        (case below of
           N_condition c # T t1 v1 # below1 \<Rightarrow>
             if t1 = LPAREN then Reduce (N_condition c # below1) else SyntaxError
         | _ \<Rightarrow> SyntaxError)
      else if t = THEN then
        (if la = Some MOVE \<or> la = Some FLAG \<or> la = Some UNFLAG \<or> (la = Some STREAM \<and> has_stream g)
         then Shift else SyntaxError)
      else if t = MOVE \<or> t = STREAM then expect_quote la
      else if t = FLAG then
        (if la = Some QUOTE then Shift else Reduce (N_flag (NewFlagRule None []) # below))
      else if t = UNFLAG then
        (if la = Some QUOTE then Shift else Reduce (N_unflag (NewUnflagRule None []) # below))
      else
        (case below of
           N_rule r # N_rules rs # below1 \<Rightarrow> Reduce (N_rules (rs @ [r]) # below1)
         | N_rule r # below1 \<Rightarrow> Reduce (N_rules [r] # below1)
         | _ \<Rightarrow> SyntaxError))"

text \<open>
  The production \<^verbatim>\<open>rule: IF condition THEN action\<close> sets the predicate of the rule that the
  action built and gives the rule.
\<close>

definition reduce_rule :: "(Predicate \<Rightarrow> Rule) \<Rightarrow> sym list \<Rightarrow> yyaction" where
  "reduce_rule with_predicate below =
     (case below of
        T t1 v1 # N_condition c # T t2 v2 # below1 \<Rightarrow>
          if t1 = THEN \<and> t2 = IF then Reduce (N_rule (with_predicate c) # below1)
          else SyntaxError
      | _ \<Rightarrow> SyntaxError)"

definition yystep ::
  "(string \<Rightarrow> error option) \<Rightarrow> grammar \<Rightarrow> sym list \<Rightarrow> yytoken option \<Rightarrow> yyaction" where
  "yystep Compile g stack la =
     (case stack of
        [] \<Rightarrow> if la = Some IF then Shift else SyntaxError
      | T t v # below \<Rightarrow> after_token Compile g t v below la
      | N_condition c # below \<Rightarrow> after_condition c below la
      | N_move r # below \<Rightarrow>
          reduce_rule (\<lambda>c. Rule_Move (r\<lparr>MoveRule.Predicate := Some c\<rparr>)) below
      | N_flag r # below \<Rightarrow>
          reduce_rule (\<lambda>c. Rule_Flag (r\<lparr>FlagRule.Predicate := Some c\<rparr>)) below
      | N_unflag r # below \<Rightarrow>
          reduce_rule (\<lambda>c. Rule_Unflag (r\<lparr>UnflagRule.Predicate := Some c\<rparr>)) below
      | N_stream r # below \<Rightarrow>
          reduce_rule (\<lambda>c. Rule_Stream (r\<lparr>CmdStreamRule.Predicate := Some c\<rparr>)) below
      | N_rule r # below \<Rightarrow> if la = Some SEMICOLON then Shift else SyntaxError
      | N_rules rs # below \<Rightarrow>
          if la = Some IF then Shift
          else if la = None \<and> below = [] then Accept rs
          else SyntaxError)"

fun weight :: "sym list \<Rightarrow> nat" where
  "weight [] = 0"
| "weight (T t v # rest) = 2 + weight rest"
| "weight (x # rest) = 1 + weight rest"


lemma reduce_comparison_weight:
  "reduce_comparison Compile g field op quoted below = Reduce stack' \<Longrightarrow>
     weight stack' = 1 + weight below"
  by (auto simp: reduce_comparison_def split: sum.splits option.splits if_splits)

lemma reduce_or_shift_weight:
  "reduce_or_shift t la reduced = Reduce stack' \<Longrightarrow> stack' = reduced"
  by (auto simp: reduce_or_shift_def split: option.splits if_splits resolution.splits)

lemma after_condition_weight:
  "after_condition c below la = Reduce stack' \<Longrightarrow> weight stack' < 1 + weight below"
  by (auto simp: after_condition_def split: list.splits sym.splits if_splits
           dest!: reduce_or_shift_weight)

lemma after_quote_weight:
  "after_quote Compile g quoted below = Reduce stack' \<Longrightarrow> weight stack' < 2 + weight below"
  by (auto simp: after_quote_def split: list.splits sym.splits if_splits sum.splits
           dest!: reduce_comparison_weight)

lemma after_token_weight:
  "after_token Compile g t v below la = Reduce stack' \<Longrightarrow> weight stack' < 2 + weight below"
  by (auto simp: after_token_def expect_condition_def expect_quote_def
           split: list.splits sym.splits if_splits dest!: after_quote_weight)

lemma reduce_rule_weight:
  "reduce_rule f below = Reduce stack' \<Longrightarrow> weight stack' < 1 + weight below"
  by (auto simp: reduce_rule_def split: list.splits sym.splits if_splits)

lemma yystep_weight:
  "yystep Compile g stack la = Reduce stack' \<Longrightarrow> weight stack' < weight stack"
  by (auto simp: yystep_def split: list.splits sym.splits if_splits
           dest!: after_token_weight after_condition_weight reduce_rule_weight)

lemma Parser_Lex_length:
  "Parser_Lex p = (la, p') \<Longrightarrow>
     length (lexer p') + (case la of None \<Rightarrow> 0 | Some x \<Rightarrow> 1) \<le> length (lexer p)"
proof (induction p arbitrary: la p' rule: Parser_Lex.induct)
  case (1 p)
  show ?case
  proof (cases "lexer p")
    case Nil
    with "1.prems" show ?thesis by (subst (asm) Parser_Lex.simps) auto
  next
    case (Cons tok rest)
    define q where "q = p\<lparr>lexer := rest, last_tok := tok\<rparr>"
    show ?thesis
    proof (cases "Type tok \<noteq> TokenEOF \<and> Type tok \<noteq> TokenError \<and> Type tok = TokenComment")
      case True
      then have c: "Type tok \<noteq> TokenEOF" "Type tok \<noteq> TokenError" "Type tok = TokenComment"
        by auto
      from "1.prems" Cons c have "Parser_Lex q = (la, p')"
        by (subst (asm) Parser_Lex.simps) (simp add: q_def)
      with "1.IH" [OF Cons refl c]
      have "length (lexer p') + (case la of None \<Rightarrow> 0 | Some x \<Rightarrow> 1) \<le> length (lexer q)"
        by (simp add: q_def)
      then show ?thesis by (simp add: q_def Cons)
    next
      case False
      with "1.prems" Cons show ?thesis
        by (subst (asm) Parser_Lex.simps) (auto simp: Let_def split: if_splits option.splits)
    qed
  qed
qed

text \<open>
  The loop of the generated parser. It reads the lookahead before every move. It ends by
  accepting, which stores the result (\<^verbatim>\<open>start: rules\<close>), by reporting a syntax error
  through \<^verbatim>\<open>Error\<close>, or when a semantic action calls \<^verbatim>\<open>Error\<close> and returns. The text of
  the generated parser's own message is taken to be \<open>syntax error\<close>.
\<close>

function yyrun ::
  "(string \<Rightarrow> error option) \<Rightarrow> grammar \<Rightarrow> sym list \<Rightarrow> (yytoken \<times> string) option \<Rightarrow> Parser
     \<Rightarrow> panic + int \<times> Parser" where
  "yyrun Compile g stack la p =
     (case yystep Compile g stack (map_option fst la) of
        Shift \<Rightarrow>
          (case la of
             None \<Rightarrow> Inr (1, Parser_Error p (S ''syntax error''))
           | Some (t, v) \<Rightarrow>
               (case Parser_Lex p of (la', p') \<Rightarrow> yyrun Compile g (T t v # stack) la' p'))
      | Reduce stack' \<Rightarrow> yyrun Compile g stack' la p
      | Accept rs \<Rightarrow> Inr (0, p\<lparr>result := rs\<rparr>)
      | SyntaxError \<Rightarrow> Inr (1, Parser_Error p (S ''syntax error''))
      | ActionError msg \<Rightarrow> Inr (-1, Parser_Error p msg)
      | ActionPanic x \<Rightarrow> Inl x)"
  by pat_completeness auto
termination
proof (relation "measure (\<lambda>(Compile, g, stack, la, p).
         3 * length (lexer p) + (case la of None \<Rightarrow> 0 | Some x \<Rightarrow> 3) + weight stack)",
       goal_cases)
  case 1
  show ?case by simp
next
  case (2 Compile g stack la p tv t v la' p')
  then have eq: "Parser_Lex p = (la', p')" by simp
  from Parser_Lex_length [OF eq] 2(2) show ?case
    by (auto simp: eq split: option.splits)
next
  case (3 Compile g stack la p stack')
  from yystep_weight [OF this] show ?case by simp
qed

declare yyrun.simps [simp del]

definition yyParse :: "(string \<Rightarrow> error option) \<Rightarrow> grammar \<Rightarrow> Parser \<Rightarrow> panic + int \<times> Parser" where
  "yyParse Compile g p = (case Parser_Lex p of (la, p') \<Rightarrow> yyrun Compile g [] la p')"

definition Parser_Parse ::
  "(string \<Rightarrow> error option) \<Rightarrow> grammar \<Rightarrow> Parser \<Rightarrow> panic + (error + Rule list)" where
  "Parser_Parse Compile g p =
     (case yyParse Compile g p of
        Inl x \<Rightarrow> Inl x
      | Inr (code, p') \<Rightarrow>
          Inr (case err p' of Some e \<Rightarrow> Inl e | None \<Rightarrow> Inr (result p')))"

definition Parse :: "(string \<Rightarrow> error option) \<Rightarrow> grammar \<Rightarrow> string \<Rightarrow> panic + (error + Rule list)" where
  "Parse Compile g input = Parser_Parse Compile g (NewParser (NewLexer input))"

section \<open>Quoted strings\<close>

text \<open>
  C7. A quoted string is to run from its opening quote to the next unescaped quote. The
  loop of \<^verbatim>\<open>scanQuote\<close> goes on while \<^verbatim>\<open>lex.r > 0\<close>, and the test after the loop takes
  only \<^verbatim>\<open>lex.r < 0\<close> for the end of the input, so a NUL byte inside the string ends the loop
  and is taken for the closing quote. On the five bytes quote, a, NUL, b, quote the
  lexer returns a quote token of three bytes that ends with the NUL, then the identifier
  b, then an error token for the last quote at position 4.
\<close>

definition nul_text :: string where
  "nul_text = [CHR 0x22, CHR ''a'', CHR 0x00, CHR ''b'', CHR 0x22]"

theorem scanQuote_ends_at_NUL:
  "fst (scanQuote (NewLexer nul_text)) =
     \<lparr>Type = TokenQuote, Value = [CHR 0x22, CHR ''a'', CHR 0x00], Position = 0\<rparr> \<and>
   rpos (snd (scanQuote (NewLexer nul_text))) = 3 \<and>
   Lexer_tokens (NewLexer nul_text) =
     [\<lparr>Type = TokenQuote, Value = [CHR 0x22, CHR ''a'', CHR 0x00], Position = 0\<rparr>,
      \<lparr>Type = TokenIdentifier, Value = ''b'', Position = 3\<rparr>,
      \<lparr>Type = TokenError, Value = [], Position = 4\<rparr>]"
  by code_simp


section \<open>Parsing rule texts\<close>

text \<open>A regular expression engine that compiles every pattern.\<close>

definition compile_all :: "string \<Rightarrow> error option" where
  "compile_all s = None"

definition unknown_field_text :: string where
  \<open>unknown_field_text = ''if a = "x" or b = "y" and c = "z" then flag;''\<close>

definition known_field_text :: string where
  \<open>known_field_text = ''if to = "x" or from = "y" and subject = "z" then flag;''\<close>

text \<open>
  C2 as stated fails: the fields \<^verbatim>\<open>a\<close>, \<^verbatim>\<open>b\<close> and \<^verbatim>\<open>c\<close> of its rule text are not among
  \<^verbatim>\<open>to\<close>, \<^verbatim>\<open>from\<close> and \<^verbatim>\<open>subject\<close>, so the action of the first comparison calls \<^verbatim>\<open>Error\<close>
  with the message of \<^verbatim>\<open>NewFieldPredicate\<close> and the parse returns that error, under both
  revisions of the grammar and whatever the regular expression engine is.
\<close>

theorem unknown_field_rejected:
  "Parse compile_all rules_y unknown_field_text =
     Inr (Inl (Errorf ''%s near position %d''
                 [V (Errorf (''unknown field '' @ [CHR 0x27] @ ''%s'' @ [CHR 0x27]) [S ''a''] None),
                  D 11] None)) \<and>
   Parse compile_all rules_stream_y unknown_field_text =
     Inr (Inl (Errorf ''%s near position %d''
                 [V (Errorf (''unknown field '' @ [CHR 0x27] @ ''%s'' @ [CHR 0x27]) [S ''a''] None),
                  D 11] None))"
  by code_simp

text \<open>
  C2, amended: with the fields \<^verbatim>\<open>to\<close>, \<^verbatim>\<open>from\<close> and \<^verbatim>\<open>subject\<close> in place of \<^verbatim>\<open>a\<close>, \<^verbatim>\<open>b\<close> and
  \<^verbatim>\<open>c\<close>, parsing succeeds and yields a single flag rule (with the default flag) whose
  condition is the And of the Or of the first two comparisons and the third comparison.
\<close>

theorem or_and_group_to_the_left:
  "Parse Compile rules_y known_field_text =
     Inr (Inr [Rule_Flag
       \<lparr>FlagRule.Predicate =
          Some (AndPredicate
                  (OrPredicate (FieldPredicate ''to'' (StringEqualsPredicate ''x''))
                               (FieldPredicate ''from'' (StringEqualsPredicate ''y'')))
                  (FieldPredicate ''subject'' (StringEqualsPredicate ''z''))),
        FlagRule.Flag = FlaggedFlag, FlagRule.messages = {}\<rparr>]) \<and>
   Parse Compile rules_stream_y known_field_text =
     Inr (Inr [Rule_Flag
       \<lparr>FlagRule.Predicate =
          Some (AndPredicate
                  (OrPredicate (FieldPredicate ''to'' (StringEqualsPredicate ''x''))
                               (FieldPredicate ''from'' (StringEqualsPredicate ''y'')))
                  (FieldPredicate ''subject'' (StringEqualsPredicate ''z''))),
        FlagRule.Flag = FlaggedFlag, FlagRule.messages = {}\<rparr>])"
  by code_simp

definition stray_plus_text :: string where
  \<open>stray_plus_text = ''if to = "a" then flag; + if from = "b" then move "X";''\<close>

text \<open>
  C5. \<^verbatim>\<open>Parse\<close> is to return all the rules of the text or none. The lexer knows tokens
  that the grammar does not (numbers, \<^verbatim>\<open>+\<close>, \<^verbatim>\<open>,\<close> and the other operators); \<^verbatim>\<open>tokenNumbers\<close>
  has no entry for them, so \<^verbatim>\<open>Parser.Lex\<close> returns 0 for such a token without setting an
  error, and the generated parser takes 0 for the end of the input. A text with two
  rules and a \<^verbatim>\<open>+\<close> between them parses without error to the first rule alone.
\<close>

theorem stray_token_ends_the_parse:
  "Parse Compile rules_stream_y stray_plus_text =
     Inr (Inr [Rule_Flag
       \<lparr>FlagRule.Predicate = Some (FieldPredicate ''to'' (StringEqualsPredicate ''a'')),
        FlagRule.Flag = FlaggedFlag, FlagRule.messages = {}\<rparr>]) \<and>
   map Type (Lexer_tokens (NewLexer stray_plus_text)) =
     [TokenIf, TokenIdentifier, TokenEquals, TokenQuote, TokenThen, TokenFlag, TokenSemi,
      TokenPlus,
      TokenIf, TokenIdentifier, TokenEquals, TokenQuote, TokenThen, TokenMove, TokenQuote,
      TokenSemi, TokenEOF] \<and>
   tokenNumbers TokenPlus = None"
  by code_simp




section \<open>How conditions group\<close>

text \<open>
  The way a condition is written: a unary condition is a comparison, a negated unary
  condition or a condition in parentheses; a chain is a unary condition followed by any
  number of \<^verbatim>\<open>and\<close>/\<^verbatim>\<open>or\<close> operators, each with a unary condition. Every leaf is the
  token read.
\<close>

datatype unary =
    Comparison Token Token Token
  | Negation Token unary
  | Parenthesis Token chain Token
  and chain =
    Single unary
  | Binary chain Token unary

fun unary_tokens :: "unary \<Rightarrow> Token list"
  and chain_tokens :: "chain \<Rightarrow> Token list" where
  "unary_tokens (Comparison field op quoted) = [field, op, quoted]"
| "unary_tokens (Negation n u) = n # unary_tokens u"
| "unary_tokens (Parenthesis l c r) = l # chain_tokens c @ [r]"
| "chain_tokens (Single u) = unary_tokens u"
| "chain_tokens (Binary c op u) = chain_tokens c @ op # unary_tokens u"

fun unary_wf :: "unary \<Rightarrow> bool"
  and chain_wf :: "chain \<Rightarrow> bool" where
  "unary_wf (Comparison field op quoted) =
     (Type field = TokenIdentifier \<and> (Type op = TokenEquals \<or> Type op = TokenTilde) \<and>
      Type quoted = TokenQuote)"
| "unary_wf (Negation n u) = (Type n = TokenNot \<and> unary_wf u)"
| "unary_wf (Parenthesis l c r) =
     (Type l = TokenLeftParen \<and> chain_wf c \<and> Type r = TokenRightParen)"
| "chain_wf (Single u) = unary_wf u"
| "chain_wf (Binary c op u) =
     (chain_wf c \<and> (Type op = TokenAnd \<or> Type op = TokenOr) \<and> unary_wf u)"

text \<open>
  The predicate that the claimed grouping gives: \<^verbatim>\<open>not\<close> applies to the unary condition
  after it, the operators of a chain apply from left to right whichever they are, and a
  condition in parentheses is one operand. There is none when the action of a
  comparison fails.
\<close>

definition comparison_predicate ::
  "(string \<Rightarrow> error option) \<Rightarrow> grammar \<Rightarrow> Token \<Rightarrow> Token \<Rightarrow> Token \<Rightarrow> Predicate option" where
  "comparison_predicate Compile g field op quoted =
     (case string_value g (Value quoted) of
        Inl x \<Rightarrow> None
      | Inr s \<Rightarrow>
          if Type op = TokenTilde then
            (case Compile s of
               Some e \<Rightarrow> None
             | None \<Rightarrow> (case NewFieldPredicate (Value field) (Regexp s) of
                          Inl e \<Rightarrow> None | Inr predicate \<Rightarrow> Some predicate))
          else (case NewFieldPredicate (Value field) (StringEqualsPredicate s) of
                  Inl e \<Rightarrow> None | Inr predicate \<Rightarrow> Some predicate))"

fun unary_predicate :: "(string \<Rightarrow> error option) \<Rightarrow> grammar \<Rightarrow> unary \<Rightarrow> Predicate option"
  and chain_predicate :: "(string \<Rightarrow> error option) \<Rightarrow> grammar \<Rightarrow> chain \<Rightarrow> Predicate option" where
  "unary_predicate Compile g (Comparison field op quoted) =
     comparison_predicate Compile g field op quoted"
| "unary_predicate Compile g (Negation n u) =
     map_option NotPredicate (unary_predicate Compile g u)"
| "unary_predicate Compile g (Parenthesis l c r) = chain_predicate Compile g c"
| "chain_predicate Compile g (Single u) = unary_predicate Compile g u"
| "chain_predicate Compile g (Binary c op u) =
     (case (chain_predicate Compile g c, unary_predicate Compile g u) of
        (Some a, Some b) \<Rightarrow>
          Some (if Type op = TokenAnd then AndPredicate a b else OrPredicate a b)
      | _ \<Rightarrow> None)"

text \<open>The parser going on with the next token of the stream.\<close>

definition resume ::
  "(string \<Rightarrow> error option) \<Rightarrow> grammar \<Rightarrow> sym list \<Rightarrow> Parser \<Rightarrow> panic + int \<times> Parser" where
  "resume Compile g stack p = (case Parser_Lex p of (la, p') \<Rightarrow> yyrun Compile g stack la p')"

lemma yyrun_shift:
  "yystep Compile g stack (Some t) = Shift \<Longrightarrow>
     yyrun Compile g stack (Some (t, v)) p = resume Compile g (T t v # stack) p"
  by (subst yyrun.simps) (simp add: resume_def)

lemma resume_reduce:
  "(\<And>la. yystep Compile g stack la = Reduce stack') \<Longrightarrow>
     resume Compile g stack p = resume Compile g stack' p"
proof -
  assume r: "\<And>la. yystep Compile g stack la = Reduce stack'"
  have "yyrun Compile g stack la q = yyrun Compile g stack' la q" for la q
    by (subst yyrun.simps) (simp add: r)
  then show ?thesis by (simp add: resume_def)
qed

lemma resume_token:
  "lexer p = tok # rest \<Longrightarrow> tokenNumbers (Type tok) = Some t \<Longrightarrow>
     resume Compile g stack p =
       yyrun Compile g stack (Some (t, Value tok)) (p\<lparr>lexer := rest, last_tok := tok\<rparr>)"
proof -
  assume l: "lexer p = tok # rest" and n: "tokenNumbers (Type tok) = Some t"
  from n have "Type tok \<noteq> TokenEOF" "Type tok \<noteq> TokenError" "Type tok \<noteq> TokenComment"
    by (auto simp: tokenNumbers_def)
  with l n have "Parser_Lex p = (Some (t, Value tok), p\<lparr>lexer := rest, last_tok := tok\<rparr>)"
    by (subst Parser_Lex.simps) (simp add: Let_def)
  then show ?thesis by (simp add: resume_def)
qed

text \<open>Reading one token that the parser shifts.\<close>

lemma resume_shift:
  "lexer p = tok # rest \<Longrightarrow> tokenNumbers (Type tok) = Some t \<Longrightarrow>
   yystep Compile g stack (Some t) = Shift \<Longrightarrow>
     resume Compile g stack p =
       resume Compile g (T t (Value tok) # stack) (p\<lparr>lexer := rest, last_tok := tok\<rparr>)"
  by (simp add: resume_token yyrun_shift)

text \<open>The stacks on which a condition may start, and those on which a chain may.\<close>

fun condition_may_start :: "sym list \<Rightarrow> bool" where
  "condition_may_start (T t v # below) = (t = IF \<or> t = NOT \<or> t = LPAREN \<or> t = AND \<or> t = OR)"
| "condition_may_start stack = False"

fun chain_may_start :: "sym list \<Rightarrow> bool" where
  "chain_may_start (T t v # below) = (t = IF \<or> t = LPAREN)"
| "chain_may_start stack = False"

lemma chain_may_start_condition: "chain_may_start stack \<Longrightarrow> condition_may_start stack"
  by (cases stack rule: chain_may_start.cases) auto

lemma start_shift:
  "condition_may_start stack \<Longrightarrow> t = IDENTIFIER \<or> t = NOT \<or> t = LPAREN \<Longrightarrow>
     yystep Compile g stack (Some t) = Shift"
  by (cases stack rule: condition_may_start.cases)
     (auto simp: yystep_def after_token_def expect_condition_def)

lemma tokens_nonempty: "unary_tokens u \<noteq> []" "chain_tokens c \<noteq> []"
  by (induction u and c) simp_all

lemma resolve_reduces:
  "resolve NOT AND = ByReduce" "resolve NOT OR = ByReduce"
  "resolve AND AND = ByReduce" "resolve AND OR = ByReduce"
  "resolve OR AND = ByReduce" "resolve OR OR = ByReduce"
  by (simp_all add: resolve_def precedence_def)

lemma reduce_or_shift_reduces:
  "production_token = NOT \<or> production_token = AND \<or> production_token = OR \<Longrightarrow>
     reduce_or_shift production_token la reduced = Reduce reduced"
  by (auto simp: reduce_or_shift_def resolve_reduces split: option.splits)

lemma comparison_step:
  assumes "comparison_predicate Compile g field op quoted = Some q"
    and "Type op = TokenEquals \<or> Type op = TokenTilde"
    and "tokenNumbers (Type op) = Some t"
  shows "yystep Compile g
           (T QUOTE (Value quoted) # T t (Value op) # T IDENTIFIER (Value field) # stack) la
         = Reduce (N_condition q # stack)"
  using assms
  by (auto simp: yystep_def after_token_def after_quote_def reduce_comparison_def
        comparison_predicate_def tokenNumbers_def
        split: sum.splits option.splits if_splits)


lemma unary_pushed:
  "unary_wf u \<Longrightarrow> unary_predicate Compile g u = Some q \<Longrightarrow> condition_may_start stack \<Longrightarrow>
   lexer p = unary_tokens u @ rest \<Longrightarrow>
     resume Compile g stack p =
       resume Compile g (N_condition q # stack)
         (p\<lparr>lexer := rest, last_tok := last (unary_tokens u)\<rparr>)"
  and chain_pushed:
  "chain_wf c \<Longrightarrow> chain_predicate Compile g c = Some q \<Longrightarrow> chain_may_start stack \<Longrightarrow>
   lexer p = chain_tokens c @ rest \<Longrightarrow>
     resume Compile g stack p =
       resume Compile g (N_condition q # stack)
         (p\<lparr>lexer := rest, last_tok := last (chain_tokens c)\<rparr>)"
proof (induction u and c arbitrary: q stack p rest and q stack p rest)
  case (Comparison field op quoted)
  from Comparison.prems(1) have types: "Type field = TokenIdentifier"
    "Type op = TokenEquals \<or> Type op = TokenTilde" "Type quoted = TokenQuote"
    by simp_all
  define t where "t = (if Type op = TokenEquals then EQUALS else TILDE)"
  from types have numbers: "tokenNumbers (Type field) = Some IDENTIFIER"
    "tokenNumbers (Type op) = Some t" "tokenNumbers (Type quoted) = Some QUOTE"
    and t: "t = EQUALS \<or> t = TILDE"
    by (auto simp: tokenNumbers_def t_def)
  define p1 where "p1 = p\<lparr>lexer := op # quoted # rest, last_tok := field\<rparr>"
  define p2 where "p2 = p\<lparr>lexer := quoted # rest, last_tok := op\<rparr>"
  define p3 where "p3 = p\<lparr>lexer := rest, last_tok := quoted\<rparr>"
  have "resume Compile g stack p = resume Compile g (T IDENTIFIER (Value field) # stack) p1"
    using Comparison.prems(3,4) numbers(1)
    by (simp add: resume_shift [where rest = "op # quoted # rest"] start_shift p1_def)
  also have "\<dots> = resume Compile g (T t (Value op) # T IDENTIFIER (Value field) # stack) p2"
  proof -
    have "yystep Compile g (T IDENTIFIER (Value field) # stack) (Some t) = Shift"
      using t by (auto simp: yystep_def after_token_def)
    moreover have "lexer p1 = op # quoted # rest" by (simp add: p1_def)
    ultimately show ?thesis
      using numbers(2) by (simp add: resume_shift [where rest = "quoted # rest"] p1_def p2_def)
  qed
  also have "\<dots> = resume Compile g
      (T QUOTE (Value quoted) # T t (Value op) # T IDENTIFIER (Value field) # stack) p3"
  proof -
    have "yystep Compile g (T t (Value op) # T IDENTIFIER (Value field) # stack) (Some QUOTE) = Shift"
      using t by (auto simp: yystep_def after_token_def expect_quote_def)
    moreover have "lexer p2 = quoted # rest" by (simp add: p2_def)
    ultimately show ?thesis
      using numbers(3) by (simp add: resume_shift [where rest = rest] p2_def p3_def)
  qed
  also have "\<dots> = resume Compile g (N_condition q # stack) p3"
    using Comparison.prems(2) types(2) numbers(2)
    by (intro resume_reduce comparison_step) simp_all
  finally show ?case by (simp add: p3_def)
next
  case (Negation n u)
  from Negation.prems(1) have n: "tokenNumbers (Type n) = Some NOT" and wf: "unary_wf u"
    by (simp_all add: tokenNumbers_def)
  from Negation.prems(2) obtain q' where q': "unary_predicate Compile g u = Some q'"
    and q: "q = NotPredicate q'"
    by auto
  define p1 where "p1 = p\<lparr>lexer := unary_tokens u @ rest, last_tok := n\<rparr>"
  define p2 where "p2 = p\<lparr>lexer := rest, last_tok := last (unary_tokens u)\<rparr>"
  have "resume Compile g stack p = resume Compile g (T NOT (Value n) # stack) p1"
    using Negation.prems(3,4) n
    by (simp add: resume_shift [where rest = "unary_tokens u @ rest"] start_shift p1_def)
  also have "\<dots> = resume Compile g (N_condition q' # T NOT (Value n) # stack) p2"
    using Negation.IH [OF wf q', of "T NOT (Value n) # stack" p1 rest]
    by (simp add: p1_def p2_def)
  also have "\<dots> = resume Compile g (N_condition q # stack) p2"
    by (rule resume_reduce)
       (simp add: yystep_def after_condition_def reduce_or_shift_reduces q)
  finally show ?case by (simp add: p2_def tokens_nonempty)
next
  case (Parenthesis l c r)
  from Parenthesis.prems(1) have l: "tokenNumbers (Type l) = Some LPAREN"
    and r: "tokenNumbers (Type r) = Some RPAREN" and wf: "chain_wf c"
    by (simp_all add: tokenNumbers_def)
  from Parenthesis.prems(2) have q: "chain_predicate Compile g c = Some q" by simp
  define p1 where "p1 = p\<lparr>lexer := chain_tokens c @ r # rest, last_tok := l\<rparr>"
  define p2 where "p2 = p\<lparr>lexer := r # rest, last_tok := last (chain_tokens c)\<rparr>"
  define p3 where "p3 = p\<lparr>lexer := rest, last_tok := r\<rparr>"
  have "resume Compile g stack p = resume Compile g (T LPAREN (Value l) # stack) p1"
    using Parenthesis.prems(3,4) l
    by (simp add: resume_shift [where rest = "chain_tokens c @ r # rest"] start_shift p1_def)
  also have "\<dots> = resume Compile g (N_condition q # T LPAREN (Value l) # stack) p2"
    using Parenthesis.IH [OF wf q, of "T LPAREN (Value l) # stack" p1 "r # rest"]
    by (simp add: p1_def p2_def)
  also have "\<dots> = resume Compile g
      (T RPAREN (Value r) # N_condition q # T LPAREN (Value l) # stack) p3"
  proof -
    have "yystep Compile g (N_condition q # T LPAREN (Value l) # stack) (Some RPAREN) = Shift"
      by (simp add: yystep_def after_condition_def)
    moreover have "lexer p2 = r # rest" by (simp add: p2_def)
    ultimately show ?thesis
      using r by (simp add: resume_shift [where rest = rest] p2_def p3_def)
  qed
  also have "\<dots> = resume Compile g (N_condition q # stack) p3"
    by (rule resume_reduce) (simp add: yystep_def after_token_def)
  finally show ?case by (simp add: p3_def)
next
  case (Single u)
  from Single.IH [of q stack p rest] Single.prems show ?case
    by (simp add: chain_may_start_condition)
next
  case (Binary c op u)
  from Binary.prems(1) have wfc: "chain_wf c" and wfu: "unary_wf u"
    and op: "Type op = TokenAnd \<or> Type op = TokenOr"
    by simp_all
  define t where "t = (if Type op = TokenAnd then AND else OR)"
  from op have number: "tokenNumbers (Type op) = Some t" and t: "t = AND \<or> t = OR"
    by (auto simp: tokenNumbers_def t_def)
  from Binary.prems(2) obtain a b where a: "chain_predicate Compile g c = Some a"
    and b: "unary_predicate Compile g u = Some b"
    and q: "q = (if Type op = TokenAnd then AndPredicate a b else OrPredicate a b)"
    by (auto split: option.splits)
  from Binary.prems(3) obtain t0 v0 below where stack: "stack = T t0 v0 # below"
    and t0: "t0 = IF \<or> t0 = LPAREN"
    by (cases stack rule: chain_may_start.cases) auto
  define p1 where "p1 = p\<lparr>lexer := op # unary_tokens u @ rest, last_tok := last (chain_tokens c)\<rparr>"
  define p2 where "p2 = p\<lparr>lexer := unary_tokens u @ rest, last_tok := op\<rparr>"
  define p3 where "p3 = p\<lparr>lexer := rest, last_tok := last (unary_tokens u)\<rparr>"
  have "resume Compile g stack p = resume Compile g (N_condition a # stack) p1"
    using Binary.IH(1) [OF wfc a Binary.prems(3), of p "op # unary_tokens u @ rest"]
      Binary.prems(4)
    by (simp add: p1_def)
  also have "\<dots> = resume Compile g (T t (Value op) # N_condition a # stack) p2"
  proof -
    have "yystep Compile g (N_condition a # stack) (Some t) = Shift"
      using t t0 by (auto simp: yystep_def after_condition_def stack)
    moreover have "lexer p1 = op # unary_tokens u @ rest" by (simp add: p1_def)
    ultimately show ?thesis
      using number
      by (simp add: resume_shift [where rest = "unary_tokens u @ rest"] p1_def p2_def)
  qed
  also have "\<dots> = resume Compile g (N_condition b # T t (Value op) # N_condition a # stack) p3"
    using Binary.IH(2) [OF wfu b, of "T t (Value op) # N_condition a # stack" p2 rest] t
    by (auto simp: p2_def p3_def)
  also have "\<dots> = resume Compile g (N_condition q # stack) p3"
    using t op
    by (intro resume_reduce)
       (auto simp: yystep_def after_condition_def reduce_or_shift_reduces q t_def
             split: if_splits)
  finally show ?case by (simp add: p3_def tokens_nonempty)
qed


subsection \<open>Rules and rule files as they are written\<close>

datatype action =
    MoveTo Token Token
  | FlagDefault Token
  | FlagNamed Token Token
  | UnflagDefault Token
  | UnflagNamed Token Token
  | StreamTo Token Token


fun action_tokens :: "action \<Rightarrow> Token list" where
  "action_tokens (MoveTo k quoted) = [k, quoted]"
| "action_tokens (FlagDefault k) = [k]"
| "action_tokens (FlagNamed k quoted) = [k, quoted]"
| "action_tokens (UnflagDefault k) = [k]"
| "action_tokens (UnflagNamed k quoted) = [k, quoted]"
| "action_tokens (StreamTo k quoted) = [k, quoted]"











lemma action_tokens_nonempty: "action_tokens a \<noteq> []"
  by (cases a) simp_all













section \<open>The two grammars on texts without stream rules and escapes\<close>























end
